theory Spec2Isabelle
  imports Main "HOL-Library.Word"
begin

unbundle bit_operations_syntax

section \<open>Buffers\<close>

text \<open>
  Offsets, sizes and lengths are non-negative integers (\<open>nat\<close>); a difference that
  can be negative is taken in \<open>int\<close>. Mode and flag words are small enough that the
  32-bit range of JavaScript's \<open>&\<close> and \<open>|\<close> does not matter.

  A Node \<open>Buffer\<close> is a sequence of bytes. \<open>Buffer.alloc n\<close> is zero-filled.
  \<open>buf.slice(start, end)\<close> clamps both indices with \<open>adjustOffset\<close>: a negative index
  counts from the end of the buffer and is clamped at 0, an index past the end is clamped
  at the length. \<open>src.copy(target)\<close> overwrites the first
  \<open>min(src.length, target.length)\<close> bytes of the target.
\<close>

type_synonym byte = "8 word"
type_synonym buffer = "byte list"

definition BLOCK_SIZE :: nat where
  "BLOCK_SIZE = 1024 * 1024"

definition Buffer_alloc :: "nat \<Rightarrow> buffer" where
  "Buffer_alloc n = replicate n 0"

definition adjustOffset :: "int \<Rightarrow> nat \<Rightarrow> nat" where
  "adjustOffset off len =
     (if off < 0 then (if off + int len > 0 then nat (off + int len) else 0)
      else if off < int len then nat off
      else len)"

definition Buffer_slice :: "buffer \<Rightarrow> int \<Rightarrow> int \<Rightarrow> buffer" where
  "Buffer_slice buf start end =
     (let s = adjustOffset start (length buf);
          e = adjustOffset end (length buf)
      in take (if e > s then e - s else 0) (drop s buf))"

definition Buffer_slice_from :: "buffer \<Rightarrow> int \<Rightarrow> buffer" where
  "Buffer_slice_from buf start =
     (let s = adjustOffset start (length buf);
          e = length buf
      in take (if e > s then e - s else 0) (drop s buf))"

definition Buffer_copy :: "buffer \<Rightarrow> buffer \<Rightarrow> buffer" where
  "Buffer_copy src target = take (length target) src @ drop (length src) target"

section \<open>Inodes and file bodies\<close>

datatype number = NaN | Num int

record inode =
  mode :: nat
  uid :: int
  gid :: int
  ino :: number
  nlink :: int
  entries :: "nat list"
  blocks :: "buffer option list"
  size_bytes :: nat

text \<open>
  \<open>blocks\<close> is a JavaScript array: reading an index that is a hole or past the end
  gives \<open>undefined\<close> (here \<open>None\<close>), and assigning past the end extends the array with
  holes.
\<close>

definition block_at :: "buffer option list \<Rightarrow> nat \<Rightarrow> buffer option" where
  "block_at blks i = (if i < length blks then blks ! i else None)"

definition set_block :: "buffer option list \<Rightarrow> nat \<Rightarrow> buffer \<Rightarrow> buffer option list" where
  "set_block blks i b =
     (if i < length blks then blks[i := Some b]
      else blks @ replicate (i - length blks) None @ [Some b])"

definition File_truncate :: "inode \<Rightarrow> nat \<Rightarrow> inode" where
  "File_truncate f n =
     f\<lparr>size_bytes := n,
       blocks := take ((n + BLOCK_SIZE - 1) div BLOCK_SIZE) (blocks f)\<rparr>"

text \<open>
  One round of the copy loop of \<open>File.read\<close> fetches block \<open>i\<close> (a hole reads as a
  fresh zero block) and increments \<open>i\<close> at once, so the bound test and the trimming
  \<open>slice\<close> are made with the index of the next block. \<open>File_read_blk\<close> is the block as it
  stands when it is copied out: trimmed, then shifted by \<open>ofs\<close> when \<open>ofs\<close> is not 0.
\<close>

definition File_read_blk :: "inode \<Rightarrow> nat \<Rightarrow> nat \<Rightarrow> buffer" where
  "File_read_blk f i ofs =
     (let blk0 = (case block_at (blocks f) i of Some b \<Rightarrow> b
                  | None \<Rightarrow> Buffer_alloc BLOCK_SIZE);
          i1 = i + 1;
          blk1 = (if i1 * BLOCK_SIZE + length blk0 > size_bytes f
                  then Buffer_slice blk0 0 (int (size_bytes f) - int (i1 * BLOCK_SIZE))
                  else blk0)
      in if ofs \<noteq> 0 then Buffer_slice_from blk1 (int ofs) else blk1)"

text \<open>
  The loop has no bound of its own, so it is a partial function: \<open>None\<close> is "never
  returns". \<open>blk.copy(buffer.slice(start))\<close> overwrites the caller's buffer from
  \<open>start\<close> on.
\<close>

partial_function (option) File_read_loop ::
  "inode \<Rightarrow> nat \<Rightarrow> nat \<Rightarrow> nat \<Rightarrow> nat \<Rightarrow> buffer \<Rightarrow> (nat \<times> buffer) option" where
  "File_read_loop f i ofs start offset buffer =
     (if start < length buffer \<and> offset < size_bytes f then
        File_read_loop f (i + 1) 0
          (start + length (File_read_blk f i ofs))
          (offset + length (File_read_blk f i ofs))
          (take start buffer @ Buffer_copy (File_read_blk f i ofs) (drop start buffer))
      else Some (start, buffer))"

definition File_read :: "inode \<Rightarrow> nat \<Rightarrow> buffer \<Rightarrow> (nat \<times> buffer) option" where
  "File_read f offset buffer =
     (case File_read_loop f (offset div BLOCK_SIZE) (offset mod BLOCK_SIZE) 0 offset buffer of
        None \<Rightarrow> None
      | Some (start, buffer1) \<Rightarrow> Some (min (length buffer) start, buffer1))"

text \<open>
  One round of the copy loop of \<open>File.write\<close> allocates block \<open>i\<close> when it is a hole
  and takes \<open>blk\<close>, a view of the block from \<open>ofs\<close> on; copying into the view overwrites
  the block in place. \<open>File_write_blk\<close> is the view, \<open>File_write_block\<close> the block after
  the copy.
\<close>

definition File_write_blk :: "buffer option list \<Rightarrow> nat \<Rightarrow> nat \<Rightarrow> buffer" where
  "File_write_blk blks i ofs =
     (let whole = (case block_at blks i of Some b \<Rightarrow> b | None \<Rightarrow> Buffer_alloc BLOCK_SIZE)
      in if ofs \<noteq> 0 then Buffer_slice_from whole (int ofs) else whole)"

definition File_write_block :: "buffer option list \<Rightarrow> nat \<Rightarrow> nat \<Rightarrow> buffer \<Rightarrow> buffer" where
  "File_write_block blks i ofs src =
     (let whole = (case block_at blks i of Some b \<Rightarrow> b | None \<Rightarrow> Buffer_alloc BLOCK_SIZE);
          blk = File_write_blk blks i ofs
      in take (length whole - length blk) whole @ Buffer_copy src blk)"

partial_function (option) File_write_loop ::
  "buffer \<Rightarrow> nat \<Rightarrow> nat \<Rightarrow> nat \<Rightarrow> nat \<Rightarrow> nat \<Rightarrow> buffer option list
     \<Rightarrow> (nat \<times> buffer option list) option" where
  "File_write_loop buffer sz i ofs start offset blks =
     (if start < length buffer \<and> offset < sz then
        File_write_loop buffer sz (i + 1) 0
          (start + length (File_write_blk blks i ofs))
          (offset + length (File_write_blk blks i ofs))
          (set_block blks i (File_write_block blks i ofs (drop start buffer)))
      else Some (start, blks))"

definition File_write :: "inode \<Rightarrow> nat \<Rightarrow> buffer \<Rightarrow> (nat \<times> inode) option" where
  "File_write f offset buffer =
     (let sz = (if offset + length buffer > size_bytes f then offset + length buffer
                else size_bytes f)
      in case File_write_loop buffer sz (offset div BLOCK_SIZE) (offset mod BLOCK_SIZE)
                0 offset (blocks f) of
           None \<Rightarrow> None
         | Some (start, blks) \<Rightarrow>
             Some (min (length buffer) start, f\<lparr>size_bytes := sz, blocks := blks\<rparr>))"

section \<open>Errors\<close>

text \<open>
  The eight tagged errors of the source, and the two untagged JavaScript errors its code
  can raise: \<open>ReferenceError\<close> (an undeclared identifier is evaluated) and \<open>TypeError\<close>
  (a method that the object's class does not have is called).
\<close>

datatype error =
  ENOENT | ENOTDIR | EINVAL | EPERM | EBADF | ENOTEMPTY | EEXIST | EISDIR
  | ReferenceError | TypeError

fun errno :: "error \<Rightarrow> int option" where
  "errno ENOENT = Some (- 2)"
| "errno ENOTDIR = Some (- 20)"
| "errno EINVAL = Some (- 23)"
| "errno EPERM = Some (- 1)"
| "errno EBADF = Some (- 9)"
| "errno ENOTEMPTY = Some (- 66)"
| "errno EEXIST = Some (- 17)"
| "errno EISDIR = Some (- 21)"
| "errno ReferenceError = None"
| "errno TypeError = None"

section \<open>The constants table\<close>

text \<open>
  The table \<open>c\<close> of the \<open>filesystem-constants\<close> package is not part of the repository;
  it is a parameter of the model, kept in the \<open>constants\<close> field of the file system.
  \<open>linux\<close> holds the Linux values and is used where a concrete table is needed.
\<close>

record constants =
  S_IFDIR :: nat
  S_IFREG :: nat
  O_RDONLY :: nat
  O_WRONLY :: nat
  O_RDWR :: nat
  O_ACCMODE :: nat
  O_APPEND :: nat
  O_CREAT :: nat
  O_EXCL :: nat

definition linux :: constants where
  "linux = \<lparr>S_IFDIR = 16384, S_IFREG = 32768, O_RDONLY = 0, O_WRONLY = 1, O_RDWR = 2,
     O_ACCMODE = 3, O_APPEND = 1024, O_CREAT = 64, O_EXCL = 128\<rparr>"

section \<open>Objects: entries, descriptors, the file system\<close>

text \<open>
  Entries and inodes are JavaScript objects that are shared by reference: an inode by
  the entries linked to it, an entry by its directory and by open descriptors. The model
  keeps them in two stores addressed by natural numbers; allocation takes the next free
  address. Timestamps and extended attributes are left out.

  \<open>cls\<close> is the JavaScript class of an entry object (which methods it has);
  \<open>isDirectory\<close> and \<open>isFile\<close> look at the mode bits of the inode instead.
  \<open>entry_nlink\<close> is the own property \<open>nlink\<close> of an entry object, which only
  \<open>FileSystem.link\<close> creates.
\<close>

datatype cls = Directory | File

record entry =
  cls :: cls
  fs :: bool
  name :: string
  inode :: nat
  entry_nlink :: "number option"

record FileDescriptor =
  fd_file :: "nat option"
  fd_id :: nat
  readable :: bool
  writable :: bool
  appending :: bool
  exclusive :: bool
  creating :: bool
  position :: nat

record FileSystem =
  constants :: constants
  root :: nat
  fds :: "FileDescriptor option list"
  inodes :: "number option"
  inode_store :: "nat \<Rightarrow> inode"
  entry_store :: "nat \<Rightarrow> entry"
  next_inode :: nat
  next_entry :: nat

definition upd_inode :: "FileSystem \<Rightarrow> nat \<Rightarrow> (inode \<Rightarrow> inode) \<Rightarrow> FileSystem" where
  "upd_inode s a g = s\<lparr>inode_store := (inode_store s)(a := g (inode_store s a))\<rparr>"

definition upd_entry :: "FileSystem \<Rightarrow> nat \<Rightarrow> (entry \<Rightarrow> entry) \<Rightarrow> FileSystem" where
  "upd_entry s a g = s\<lparr>entry_store := (entry_store s)(a := g (entry_store s a))\<rparr>"

text \<open>The inode behind an entry: \<open>this.inode\<close>.\<close>

definition inode_of :: "FileSystem \<Rightarrow> nat \<Rightarrow> inode" where
  "inode_of s e = inode_store s (inode (entry_store s e))"

subsection \<open>Constructors\<close>

text \<open>
  \<open>++fs.inodes\<close> and \<open>fe.nlink++\<close> convert their operand to a number first:
  \<open>undefined\<close> becomes \<open>NaN\<close>, and \<open>NaN + 1\<close> is \<open>NaN\<close>.
\<close>

fun increment :: "number option \<Rightarrow> number" where
  "increment None = NaN"
| "increment (Some NaN) = NaN"
| "increment (Some (Num k)) = Num (k + 1)"

text \<open>
  \<open>new Inode(fs, mode, opts)\<close>; no caller passes \<open>opts.ino\<close>, \<open>opts.uid\<close>,
  \<open>opts.gid\<close> or \<open>opts.nlink\<close>. \<open>has_fs\<close> says whether \<open>fs\<close> is the file system or
  \<open>null\<close>.
\<close>

definition Inode_new :: "FileSystem \<Rightarrow> bool \<Rightarrow> nat \<Rightarrow> nat \<times> FileSystem" where
  "Inode_new s has_fs m =
     (let s1 = (if has_fs then s\<lparr>inodes := Some (increment (inodes s))\<rparr> else s);
          n = (if has_fs then increment (inodes s) else Num 0);
          a = next_inode s1
      in (a, s1\<lparr>inode_store := (inode_store s1)(a :=
                  \<lparr>mode = m, uid = 0, gid = 0, ino = n, nlink = 1, entries = [],
                   blocks = [], size_bytes = 0\<rparr>),
                next_inode := a + 1\<rparr>))"

text \<open>
  \<open>new Entry(mode, opts)\<close> for an object of class \<open>k\<close>: \<open>opts.inode\<close> is used when it
  is given, otherwise a new inode is made.
\<close>

definition Entry_new ::
  "FileSystem \<Rightarrow> cls \<Rightarrow> nat \<Rightarrow> bool \<Rightarrow> string \<Rightarrow> nat option \<Rightarrow> nat \<times> FileSystem" where
  "Entry_new s k m opts_fs opts_name opts_inode =
     (let (i, s1) = (case opts_inode of Some i \<Rightarrow> (i, s) | None \<Rightarrow> Inode_new s opts_fs m);
          a = next_entry s1
      in (a, s1\<lparr>entry_store := (entry_store s1)(a :=
                  \<lparr>cls = k, fs = opts_fs, name = opts_name, inode = i, entry_nlink = None\<rparr>),
                next_entry := a + 1\<rparr>))"

definition Directory_new ::
  "FileSystem \<Rightarrow> bool \<Rightarrow> string \<Rightarrow> nat option \<Rightarrow> nat \<times> FileSystem" where
  "Directory_new s opts_fs opts_name opts_inode =
     (let (a, s1) = Entry_new s Directory (511 OR S_IFDIR (constants s))
                      opts_fs opts_name opts_inode
      in (a, upd_inode s1 (inode (entry_store s1 a)) (\<lambda>i. i\<lparr>size_bytes := 512\<rparr>)))"

definition File_new ::
  "FileSystem \<Rightarrow> bool \<Rightarrow> string \<Rightarrow> nat option \<Rightarrow> nat \<times> FileSystem" where
  "File_new s opts_fs opts_name opts_inode =
     Entry_new s File (438 OR S_IFREG (constants s)) opts_fs opts_name opts_inode"

text \<open>
  \<open>new FileSystem()\<close> builds the root directory first, while its own \<open>inodes\<close>
  property is still unset, and sets \<open>fds\<close> and \<open>inodes\<close> afterwards.
\<close>

definition blank_inode :: inode where
  "blank_inode = \<lparr>mode = 0, uid = 0, gid = 0, ino = Num 0, nlink = 0, entries = [],
     blocks = [], size_bytes = 0\<rparr>"

definition blank_entry :: entry where
  "blank_entry = \<lparr>cls = File, fs = False, name = [], inode = 0, entry_nlink = None\<rparr>"

definition FileSystem_new :: "constants \<Rightarrow> FileSystem" where
  "FileSystem_new c =
     (let s0 = \<lparr>constants = c, root = 0, fds = [], inodes = None,
                 inode_store = (\<lambda>_. blank_inode), entry_store = (\<lambda>_. blank_entry),
                 next_inode = 0, next_entry = 0\<rparr>;
          (r, s1) = Directory_new s0 True [] None
      in s1\<lparr>root := r, fds := [], inodes := Some (Num 0)\<rparr>)"

subsection \<open>Entry methods\<close>

definition isDirectory :: "FileSystem \<Rightarrow> nat \<Rightarrow> bool" where
  "isDirectory s e = (mode (inode_of s e) AND S_IFDIR (constants s) \<noteq> 0)"

definition isFile :: "FileSystem \<Rightarrow> nat \<Rightarrow> bool" where
  "isFile s e = (mode (inode_of s e) AND S_IFREG (constants s) \<noteq> 0)"

definition Entry_reset :: "FileSystem \<Rightarrow> nat \<Rightarrow> FileSystem" where
  "Entry_reset s e =
     upd_inode s (inode (entry_store s e))
       (\<lambda>i. i\<lparr>blocks := [], size_bytes := 0, entries := []\<rparr>)"

record stat =
  st_mode :: nat
  st_size :: nat
  st_blocks :: nat
  st_dev :: nat
  st_rdev :: nat
  st_nlink :: int
  st_ino :: number
  st_uid :: int
  st_gid :: int

definition Entry_stat :: "FileSystem \<Rightarrow> nat \<Rightarrow> stat" where
  "Entry_stat s e =
     (let i = inode_of s e
      in \<lparr>st_mode = mode i, st_size = size_bytes i,
          st_blocks = (size_bytes i + 511) div 512, st_dev = 0, st_rdev = 0,
          st_nlink = nlink i, st_ino = ino i, st_uid = uid i, st_gid = gid i\<rparr>)"

definition Entry_chown :: "FileSystem \<Rightarrow> nat \<Rightarrow> int \<Rightarrow> int \<Rightarrow> FileSystem" where
  "Entry_chown s e u g = upd_inode s (inode (entry_store s e)) (\<lambda>i. i\<lparr>uid := u, gid := g\<rparr>)"

subsection \<open>Directory methods\<close>

definition Directory_isEmpty :: "FileSystem \<Rightarrow> nat \<Rightarrow> bool" where
  "Directory_isEmpty s d = (entries (inode_of s d) = [])"

definition Directory_readdir :: "FileSystem \<Rightarrow> nat \<Rightarrow> string list" where
  "Directory_readdir s d = map (\<lambda>e. name (entry_store s e)) (entries (inode_of s d))"

definition Directory_get :: "FileSystem \<Rightarrow> nat \<Rightarrow> string \<Rightarrow> nat option" where
  "Directory_get s d nm = find (\<lambda>e. name (entry_store s e) = nm) (entries (inode_of s d))"

definition Directory_exists :: "FileSystem \<Rightarrow> nat \<Rightarrow> string \<Rightarrow> bool" where
  "Directory_exists s d nm = (Directory_get s d nm \<noteq> None)"

text \<open>
  \<open>indexOf\<close> finds the first position of the entry object itself; \<open>splice(i, 1)\<close>
  removes that position.
\<close>

definition Directory_remove :: "FileSystem \<Rightarrow> nat \<Rightarrow> nat \<Rightarrow> FileSystem" where
  "Directory_remove s d e =
     (if e \<in> set (entries (inode_of s d)) then
        (let s1 = upd_inode s (inode (entry_store s d)) (\<lambda>i. i\<lparr>entries := remove1 e (entries i)\<rparr>)
         in upd_inode s1 (inode (entry_store s1 e)) (\<lambda>i. i\<lparr>nlink := nlink i - 1\<rparr>))
      else s)"

definition Directory_push :: "FileSystem \<Rightarrow> nat \<Rightarrow> nat \<Rightarrow> FileSystem" where
  "Directory_push s d e =
     upd_inode s (inode (entry_store s d)) (\<lambda>i. i\<lparr>entries := entries i @ [e]\<rparr>)"

definition Directory_mkdir :: "FileSystem \<Rightarrow> nat \<Rightarrow> string \<Rightarrow> (error + nat) \<times> FileSystem" where
  "Directory_mkdir s d nm =
     (if Directory_exists s d nm then (Inl EEXIST, s)
      else (let (e, s1) = Directory_new s (fs (entry_store s d)) nm None
            in (Inr e, Directory_push s1 d e)))"

definition Directory_create :: "FileSystem \<Rightarrow> nat \<Rightarrow> string \<Rightarrow> nat \<Rightarrow> nat \<times> FileSystem" where
  "Directory_create s d nm m =
     (case Directory_get s d nm of
        Some ex \<Rightarrow> (ex, Entry_reset s ex)
      | None \<Rightarrow> (let (e, s1) = File_new s (fs (entry_store s d)) nm None
                 in (e, Directory_push s1 d e)))"

text \<open>
  A method of class \<open>Directory\<close> called on an object of class \<open>File\<close> is a
  \<open>TypeError\<close>: the object has no such method.
\<close>

definition Directory_rmdir :: "FileSystem \<Rightarrow> nat \<Rightarrow> string \<Rightarrow> (error + unit) \<times> FileSystem" where
  "Directory_rmdir s d nm =
     (case Directory_get s d nm of
        None \<Rightarrow> (Inl ENOENT, s)
      | Some ex \<Rightarrow>
          if \<not> isDirectory s ex then (Inl ENOTDIR, s)
          else if cls (entry_store s ex) \<noteq> Directory then (Inl TypeError, s)
          else if \<not> Directory_isEmpty s ex then (Inl ENOTEMPTY, s)
          else (Inr (), Directory_remove s d ex))"

definition Directory_unlink :: "FileSystem \<Rightarrow> nat \<Rightarrow> string \<Rightarrow> (error + unit) \<times> FileSystem" where
  "Directory_unlink s d nm =
     (case Directory_get s d nm of
        None \<Rightarrow> (Inl ENOENT, s)
      | Some ex \<Rightarrow>
          if isDirectory s ex then (Inl EPERM, s)
          else (Inr (), Directory_remove s d ex))"

subsection \<open>Path resolution\<close>

text \<open>\<open>path.split('/')\<close>, then \<open>filter(notEmpty)\<close>.\<close>

fun split_slash :: "string \<Rightarrow> string list" where
  "split_slash [] = [[]]"
| "split_slash (ch # cs) =
     (if ch = CHR ''/'' then [] # split_slash cs
      else (case split_slash cs of [] \<Rightarrow> [[ch]] | w # ws \<Rightarrow> (ch # w) # ws))"

definition split_path :: "string \<Rightarrow> string list" where
  "split_path path = filter (\<lambda>p. p \<noteq> []) (split_slash path)"

fun lookup_from :: "FileSystem \<Rightarrow> nat \<Rightarrow> string list \<Rightarrow> error + nat" where
  "lookup_from s cur [] = Inr cur"
| "lookup_from s cur (p # ps) =
     (if \<not> isDirectory s cur then Inl ENOTDIR
      else if cls (entry_store s cur) \<noteq> Directory then Inl TypeError
      else (case Directory_get s cur p of
              None \<Rightarrow> Inl ENOENT
            | Some e \<Rightarrow> lookup_from s e ps))"

definition lookup :: "FileSystem \<Rightarrow> string list \<Rightarrow> error + nat" where
  "lookup s parts = lookup_from s (root s) parts"

text \<open>
  \<open>_parentDir\<close>: \<open>parts.pop()\<close> is \<open>undefined\<close> exactly when there is no component.
  The \<open>parentPath\<close> of the result is only used in messages and is left out.
\<close>

definition parentDir :: "FileSystem \<Rightarrow> string \<Rightarrow> error + (nat \<times> string)" where
  "parentDir s path =
     (let parts = split_path path
      in if parts = [] then Inl EINVAL
         else (case lookup s (butlast parts) of
                 Inl e \<Rightarrow> Inl e
               | Inr dir \<Rightarrow>
                   if \<not> isDirectory s dir then Inl ENOTDIR
                   else Inr (dir, last parts)))"

text \<open>\<open>parent.get(name)\<close> on whatever object path resolution returned.\<close>

definition call_get :: "FileSystem \<Rightarrow> nat \<Rightarrow> string \<Rightarrow> error + nat option" where
  "call_get s d nm =
     (if cls (entry_store s d) \<noteq> Directory then Inl TypeError
      else Inr (Directory_get s d nm))"

subsection \<open>File descriptors\<close>

text \<open>
  \<open>new FileDescriptor(flag, id)\<close> for a numeric flag (the string form goes through
  \<open>constants.parse\<close>, which is outside the repository).
\<close>

definition FileDescriptor_new :: "constants \<Rightarrow> nat \<Rightarrow> nat \<Rightarrow> FileDescriptor" where
  "FileDescriptor_new c n i =
     (let acc = n AND O_ACCMODE c
      in \<lparr>fd_file = None, fd_id = i,
          readable = (acc = O_RDONLY c \<or> acc = O_RDWR c),
          writable = (acc = O_WRONLY c \<or> acc = O_RDWR c),
          appending = (n AND O_APPEND c \<noteq> 0),
          exclusive = (n AND O_EXCL c \<noteq> 0),
          creating = (n AND O_CREAT c \<noteq> 0),
          position = 0\<rparr>)"

text \<open>
  \<open>this.fds[fd - 20]\<close>: an index that is negative or past the end reads as
  \<open>undefined\<close>, a closed slot as \<open>null\<close>; both are \<open>None\<close>.
\<close>

definition fds_at :: "FileDescriptor option list \<Rightarrow> int \<Rightarrow> FileDescriptor option" where
  "fds_at xs k = (if 0 \<le> k \<and> k < int (length xs) then xs ! nat k else None)"

definition lookupFd :: "FileSystem \<Rightarrow> int \<Rightarrow> error + FileDescriptor" where
  "lookupFd s fd = (case fds_at (fds s) (fd - 20) of None \<Rightarrow> Inl EBADF | Some desc \<Rightarrow> Inr desc)"

text \<open>The loop of \<open>close\<close>: pop while the table is not empty and its last slot is null.\<close>

function pop_nulls :: "FileDescriptor option list \<Rightarrow> FileDescriptor option list" where
  "pop_nulls xs = (if xs \<noteq> [] \<and> last xs = None then pop_nulls (butlast xs) else xs)"
  by pat_completeness auto
termination
  by (relation "measure length") auto

subsection \<open>File system methods\<close>

definition FileSystem_link :: "FileSystem \<Rightarrow> string \<Rightarrow> string \<Rightarrow> (error + unit) \<times> FileSystem" where
  "FileSystem_link s from_path to_path =
     (case parentDir s from_path of
        Inl e \<Rightarrow> (Inl e, s)
      | Inr (f_parent, f_name) \<Rightarrow>
     (case parentDir s to_path of
        Inl e \<Rightarrow> (Inl e, s)
      | Inr (t_parent, t_name) \<Rightarrow>
     (case call_get s f_parent f_name of
        Inl e \<Rightarrow> (Inl e, s)
      | Inr None \<Rightarrow> (Inl ENOENT, s)
      | Inr (Some fe) \<Rightarrow>
          if isDirectory s fe then (Inl EISDIR, s)
          else
     (case call_get s t_parent t_name of
        Inl e \<Rightarrow> (Inl e, s)
      | Inr (Some te) \<Rightarrow> (Inl EEXIST, s)
      | Inr None \<Rightarrow>
          (let s1 = upd_entry s fe
                      (\<lambda>x. x\<lparr>entry_nlink := Some (increment (entry_nlink x))\<rparr>);
               (ne, s2) = File_new s1 False t_name (Some (inode (entry_store s1 fe)))
           in (Inr (), Directory_push s2 t_parent ne))))))"

text \<open>
  The \<open>if (te)\<close> block of \<open>rename\<close>: when the target name is bound, the three checks
  and then \<open>t.parent.remove(te)\<close>.
\<close>

definition rename_target :: "FileSystem \<Rightarrow> nat \<Rightarrow> nat \<Rightarrow> nat option \<Rightarrow> error + FileSystem" where
  "rename_target s t_parent fe te_opt =
     (case te_opt of
        None \<Rightarrow> Inr s
      | Some te \<Rightarrow>
          if isDirectory s te \<and> \<not> isDirectory s fe then Inl EISDIR
          else if isDirectory s fe \<and> \<not> isDirectory s te then Inl ENOTDIR
          else if isDirectory s fe \<and> isDirectory s te
                  \<and> cls (entry_store s te) \<noteq> Directory then Inl TypeError
          else if isDirectory s fe \<and> isDirectory s te
                  \<and> \<not> Directory_isEmpty s te then Inl ENOTEMPTY
          else Inr (Directory_remove s t_parent te))"

definition FileSystem_rename :: "FileSystem \<Rightarrow> string \<Rightarrow> string \<Rightarrow> (error + unit) \<times> FileSystem" where
  "FileSystem_rename s from_path to_path =
     (case parentDir s from_path of
        Inl e \<Rightarrow> (Inl e, s)
      | Inr (f_parent, f_name) \<Rightarrow>
     (case parentDir s to_path of
        Inl e \<Rightarrow> (Inl e, s)
      | Inr (t_parent, t_name) \<Rightarrow>
     (case call_get s f_parent f_name of
        Inl e \<Rightarrow> (Inl e, s)
      | Inr None \<Rightarrow> (Inl ENOENT, s)
      | Inr (Some fe) \<Rightarrow>
     (case call_get s t_parent t_name of
        Inl e \<Rightarrow> (Inl e, s)
      | Inr te_opt \<Rightarrow>
     (case rename_target s t_parent fe te_opt of
        Inl e \<Rightarrow> (Inl e, s)
      | Inr s1 \<Rightarrow>
          (let s2 = upd_entry s1 fe (\<lambda>x. x\<lparr>name := t_name\<rparr>);
               s3 = Directory_remove s2 f_parent fe
           in (Inr (), Directory_push s3 t_parent fe)))))))"

definition FileSystem_stat :: "FileSystem \<Rightarrow> string \<Rightarrow> error + stat" where
  "FileSystem_stat s path =
     (case lookup s (split_path path) of
        Inl e \<Rightarrow> Inl e
      | Inr e \<Rightarrow> Inr (Entry_stat s e))"

definition FileSystem_truncate :: "FileSystem \<Rightarrow> string \<Rightarrow> nat \<Rightarrow> (error + unit) \<times> FileSystem" where
  "FileSystem_truncate s path n =
     (case lookup s (split_path path) of
        Inl e \<Rightarrow> (Inl e, s)
      | Inr e \<Rightarrow>
          if cls (entry_store s e) \<noteq> File then (Inl TypeError, s)
          else (Inr (), upd_inode s (inode (entry_store s e)) (\<lambda>i. File_truncate i n)))"

text \<open>
  The last steps of \<open>open\<close>: set the position of an appending descriptor, bind the
  file, push the descriptor, return its id.
\<close>

definition open_bind :: "FileSystem \<Rightarrow> FileDescriptor \<Rightarrow> nat \<Rightarrow> (error + nat) \<times> FileSystem" where
  "open_bind s desc f =
     (let desc1 = (if appending desc then desc\<lparr>position := size_bytes (inode_of s f)\<rparr>
                   else desc);
          desc2 = desc1\<lparr>fd_file := Some f\<rparr>
      in (Inr (fd_id desc2), s\<lparr>fds := fds s @ [Some desc2]\<rparr>))"

definition FileSystem_open ::
  "FileSystem \<Rightarrow> string \<Rightarrow> nat \<Rightarrow> nat \<Rightarrow> (error + nat) \<times> FileSystem" where
  "FileSystem_open s path flag mode_arg =
     (let desc = FileDescriptor_new (constants s) flag (length (fds s) + 20)
      in case parentDir s path of
           Inl e \<Rightarrow> (Inl e, s)
         | Inr (parent, nm) \<Rightarrow>
        (case call_get s parent nm of
           Inl e \<Rightarrow> (Inl e, s)
         | Inr file_opt \<Rightarrow>
             if (case file_opt of Some f \<Rightarrow> \<not> isFile s f | None \<Rightarrow> False)
             then (Inl EPERM, s)
             else if exclusive desc \<and> file_opt \<noteq> None then (Inl EEXIST, s)
             else if readable desc \<and> \<not> writable desc \<and> file_opt = None
             then (Inl ENOENT, s)
             else
               (let s1 = (case file_opt of
                            Some f \<Rightarrow> if \<not> appending desc \<and> writable desc
                                      then Entry_reset s f else s
                          | None \<Rightarrow> s)
                in case file_opt of
                     None \<Rightarrow>
                       if \<not> creating desc then (Inl ENOENT, s1)
                       else (let (f, s2) = Directory_create s1 parent nm mode_arg
                             in open_bind s2 desc f)
                   | Some f \<Rightarrow> open_bind s1 desc f)))"

definition FileSystem_close :: "FileSystem \<Rightarrow> int \<Rightarrow> (error + unit) \<times> FileSystem" where
  "FileSystem_close s fd =
     (case fds_at (fds s) (fd - 20) of
        None \<Rightarrow> (Inl EBADF, s)
      | Some desc \<Rightarrow>
          (Inr (), s\<lparr>fds := pop_nulls ((fds s)[nat (fd - 20) := None])\<rparr>))"

definition FileSystem_rmdir :: "FileSystem \<Rightarrow> string \<Rightarrow> (error + unit) \<times> FileSystem" where
  "FileSystem_rmdir s path =
     (case parentDir s path of
        Inl e \<Rightarrow> (Inl e, s)
      | Inr (parent, nm) \<Rightarrow>
          if isDirectory s parent then
            (if cls (entry_store s parent) \<noteq> Directory then (Inl TypeError, s)
             else Directory_rmdir s parent nm)
          else (Inl ENOTDIR, s))"

definition FileSystem_unlink :: "FileSystem \<Rightarrow> string \<Rightarrow> (error + unit) \<times> FileSystem" where
  "FileSystem_unlink s path =
     (case parentDir s path of
        Inl e \<Rightarrow> (Inl e, s)
      | Inr (parent, nm) \<Rightarrow>
          if isDirectory s parent then
            (if cls (entry_store s parent) \<noteq> Directory then (Inl TypeError, s)
             else Directory_unlink s parent nm)
          else (Inl ENOTDIR, s))"

definition FileSystem_mkdir :: "FileSystem \<Rightarrow> string \<Rightarrow> nat \<Rightarrow> (error + unit) \<times> FileSystem" where
  "FileSystem_mkdir s path mode_arg =
     (case parentDir s path of
        Inl e \<Rightarrow> (Inl e, s)
      | Inr (parent, nm) \<Rightarrow>
          if isDirectory s parent then
            (if cls (entry_store s parent) \<noteq> Directory then (Inl TypeError, s)
             else (case Directory_mkdir s parent nm of
                     (Inl e, s1) \<Rightarrow> (Inl e, s1)
                   | (Inr d, s1) \<Rightarrow> (Inr (), s1)))
          else (Inl ENOTDIR, s))"

text \<open>
  \<open>chown\<close> passes \<open>mode, uid, gid\<close> to \<open>entry.chown\<close>. No \<open>mode\<close> is declared in
  \<open>chown\<close> or in the module, so evaluating the argument list raises
  \<open>ReferenceError\<close> before \<open>Entry.chown\<close> is entered.
\<close>

definition FileSystem_chown ::
  "FileSystem \<Rightarrow> string \<Rightarrow> int \<Rightarrow> int \<Rightarrow> (error + unit) \<times> FileSystem" where
  "FileSystem_chown s path u g =
     (case lookup s (split_path path) of
        Inl e \<Rightarrow> (Inl e, s)
      | Inr entry \<Rightarrow> (Inl ReferenceError, s))"

subsection \<open>Sequences of operations\<close>

datatype op =
  Mkdir string nat
  | Rmdir string
  | Unlink string
  | Link string string
  | Rename string string
  | Open string nat nat
  | Close int

fun apply_op :: "FileSystem \<Rightarrow> op \<Rightarrow> FileSystem" where
  "apply_op s (Mkdir path m) = snd (FileSystem_mkdir s path m)"
| "apply_op s (Rmdir path) = snd (FileSystem_rmdir s path)"
| "apply_op s (Unlink path) = snd (FileSystem_unlink s path)"
| "apply_op s (Link from_path to_path) = snd (FileSystem_link s from_path to_path)"
| "apply_op s (Rename from_path to_path) = snd (FileSystem_rename s from_path to_path)"
| "apply_op s (Open path flag m) = snd (FileSystem_open s path flag m)"
| "apply_op s (Close fd) = snd (FileSystem_close s fd)"

definition run :: "FileSystem \<Rightarrow> op list \<Rightarrow> FileSystem" where
  "run s ops = foldl apply_op s ops"

section \<open>Notions used in the properties\<close>

text \<open>JavaScript's \<open><\<close> on numbers: every comparison with \<open>NaN\<close> is false.\<close>

fun number_less :: "number \<Rightarrow> number \<Rightarrow> bool" where
  "number_less (Num a) (Num b) = (a < b)"
| "number_less _ _ = False"

text \<open>The number of entries of directory \<open>d\<close> that are linked to inode \<open>i\<close>.\<close>

definition links_in :: "FileSystem \<Rightarrow> nat \<Rightarrow> nat \<Rightarrow> nat" where
  "links_in s d i =
     length (filter (\<lambda>e. inode (entry_store s e) = i) (entries (inode_of s d)))"

subsection \<open>Three concrete states\<close>

text \<open>
  \<open>state_new\<close> is the file system just constructed, with the Linux table;
  \<open>state_x\<close> is \<open>state_new\<close> after \<open>open('/x', O_RDWR | O_CREAT)\<close>;
  \<open>state_x_y\<close> is \<open>state_x\<close> after \<open>link('/x', '/y')\<close>.
\<close>

definition state_new :: FileSystem where
  "state_new =
     \<lparr>constants = linux, root = 0, fds = [], inodes = Some (Num 0),
      inode_store = (\<lambda>_. blank_inode)
        (0 := \<lparr>mode = 16895, uid = 0, gid = 0, ino = NaN, nlink = 1, entries = [],
               blocks = [], size_bytes = 512\<rparr>),
      entry_store = (\<lambda>_. blank_entry)
        (0 := \<lparr>cls = Directory, fs = True, name = [], inode = 0, entry_nlink = None\<rparr>),
      next_inode = 1, next_entry = 1\<rparr>"

definition state_x :: FileSystem where
  "state_x =
     state_new\<lparr>
       fds := [Some \<lparr>fd_file = Some 1, fd_id = 20, readable = True, writable = True,
                     appending = False, exclusive = False, creating = True,
                     position = 0\<rparr>],
       inodes := Some (Num 1),
       inode_store := (inode_store state_new)
         (1 := \<lparr>mode = 33206, uid = 0, gid = 0, ino = Num 1, nlink = 1, entries = [],
                blocks = [], size_bytes = 0\<rparr>,
          0 := \<lparr>mode = 16895, uid = 0, gid = 0, ino = NaN, nlink = 1, entries = [1],
                blocks = [], size_bytes = 512\<rparr>),
       entry_store := (entry_store state_new)
         (1 := \<lparr>cls = File, fs = True, name = ''x'', inode = 1, entry_nlink = None\<rparr>),
       next_inode := 2, next_entry := 2\<rparr>"

definition state_x_y :: FileSystem where
  "state_x_y =
     state_x\<lparr>
       inode_store := (inode_store state_x)
         (0 := \<lparr>mode = 16895, uid = 0, gid = 0, ino = NaN, nlink = 1, entries = [1, 2],
                blocks = [], size_bytes = 512\<rparr>),
       entry_store := (entry_store state_x)
         (1 := \<lparr>cls = File, fs = True, name = ''x'', inode = 1, entry_nlink = Some NaN\<rparr>,
          2 := \<lparr>cls = File, fs = False, name = ''y'', inode = 1, entry_nlink = None\<rparr>),
       next_entry := 3\<rparr>"

text \<open>\<open>state_x5\<close> is \<open>state_x\<close> after \<open>truncate('/x', 5)\<close>.\<close>

definition state_x5 :: FileSystem where
  "state_x5 = upd_inode state_x 1 (\<lambda>i. File_truncate i 5)"

subsection \<open>File bodies\<close>

text \<open>Every allocated block of a file has \<open>BLOCK_SIZE\<close> bytes.\<close>

definition wf_blocks :: "buffer option list \<Rightarrow> bool" where
  "wf_blocks blks = (\<forall>b. Some b \<in> set blks \<longrightarrow> length b = BLOCK_SIZE)"

text \<open>
  \<open>stuck f i\<close>: the file ends at or before the start of block \<open>i\<close>, or exactly at the
  end of block \<open>i\<close>. From such a block index on, every round of the read loop copies
  nothing.
\<close>

definition stuck :: "inode \<Rightarrow> nat \<Rightarrow> bool" where
  "stuck f i = (size_bytes f \<le> i * BLOCK_SIZE \<or> size_bytes f = (i + 1) * BLOCK_SIZE)"

text \<open>
  \<open>empty_file\<close> is the inode of the file \<open>/x\<close> of \<open>state_x\<close>, newly created;
  \<open>full_file\<close> is that file after \<open>write(0, b)\<close> for a buffer \<open>b\<close> of \<open>BLOCK_SIZE\<close>
  bytes 1; \<open>sparse_file\<close> is the empty file after \<open>write(1048576, "x")\<close>;
  \<open>sparse_file_ab\<close> is the sparse file after \<open>write(0, "ab")\<close>.
\<close>

definition empty_file :: inode where
  "empty_file = \<lparr>mode = 33206, uid = 0, gid = 0, ino = Num 1, nlink = 1, entries = [],
     blocks = [], size_bytes = 0\<rparr>"

definition full_file :: inode where
  "full_file =
     empty_file\<lparr>size_bytes := BLOCK_SIZE, blocks := [Some (replicate BLOCK_SIZE 1)]\<rparr>"

definition sparse_file :: inode where
  "sparse_file =
     empty_file\<lparr>size_bytes := BLOCK_SIZE + 1,
       blocks := [None, Some (120 # replicate (BLOCK_SIZE - 1) 0)]\<rparr>"

definition sparse_file_ab :: inode where
  "sparse_file_ab =
     empty_file\<lparr>size_bytes := BLOCK_SIZE + 1,
       blocks := [Some (97 # 98 # replicate (BLOCK_SIZE - 2) 0),
                  Some (120 # replicate (BLOCK_SIZE - 1) 0)]\<rparr>"

subsection \<open>The descriptor table\<close>

text \<open>A table is trimmed when it is empty or its last slot is not null.\<close>

definition trimmed :: "FileDescriptor option list \<Rightarrow> bool" where
  "trimmed xs = (xs = [] \<or> last xs \<noteq> None)"

text \<open>The ids that resolve to a descriptor.\<close>

definition open_fds :: "FileSystem \<Rightarrow> int set" where
  "open_fds s = {fd. fds_at (fds s) (fd - 20) \<noteq> None}"

text \<open>The descriptor that \<open>state_x\<close> holds in slot 0.\<close>

definition desc_x :: FileDescriptor where
  "desc_x = \<lparr>fd_file = Some 1, fd_id = 20, readable = True, writable = True,
              appending = False, exclusive = False, creating = True, position = 0\<rparr>"

subsection \<open>The tree\<close>

text \<open>
  Three views of a state: the entry list of an inode, the name of an entry, the inode an
  entry is linked to.
\<close>

definition dir_entries :: "FileSystem \<Rightarrow> nat \<Rightarrow> nat list" where
  "dir_entries s i = entries (inode_store s i)"

definition entry_name :: "FileSystem \<Rightarrow> nat \<Rightarrow> string" where
  "entry_name s e = name (entry_store s e)"

definition entry_inode :: "FileSystem \<Rightarrow> nat \<Rightarrow> nat" where
  "entry_inode s e = inode (entry_store s e)"

text \<open>
  The invariant of the tree: the names in every entry list are distinct; no entry object
  is in two lists; every listed entry, and the root, has been allocated.
\<close>

definition tree_inv :: "FileSystem \<Rightarrow> bool" where
  "tree_inv s =
     ((\<forall>i. distinct (map (entry_name s) (dir_entries s i)))
      \<and> (\<forall>i j e. e \<in> set (dir_entries s i) \<and> e \<in> set (dir_entries s j) \<longrightarrow> i = j)
      \<and> (\<forall>i e. e \<in> set (dir_entries s i) \<longrightarrow> e < next_entry s)
      \<and> root s < next_entry s)"

text \<open>
  \<open>shrinks s s'\<close>: every entry list of \<open>s'\<close> is the list of \<open>s\<close> with some entries
  dropped, and the entries allocated in \<open>s\<close> keep their name and inode.
\<close>

definition shrinks :: "FileSystem \<Rightarrow> FileSystem \<Rightarrow> bool" where
  "shrinks s s' =
     ((\<forall>i. \<exists>P. dir_entries s' i = filter P (dir_entries s i))
      \<and> (\<forall>e. e < next_entry s \<longrightarrow>
             entry_name s' e = entry_name s e \<and> entry_inode s' e = entry_inode s e)
      \<and> next_entry s \<le> next_entry s'
      \<and> root s' = root s)"

text \<open>\<open>state_y\<close> is \<open>state_x_y\<close> after \<open>rename('/x', '/y')\<close>.\<close>

definition state_y :: FileSystem where
  "state_y =
     state_x_y\<lparr>
       inode_store := (inode_store state_x_y)
         (1 := \<lparr>mode = 33206, uid = 0, gid = 0, ino = Num 1, nlink = - 1, entries = [],
                blocks = [], size_bytes = 0\<rparr>,
          0 := \<lparr>mode = 16895, uid = 0, gid = 0, ino = NaN, nlink = 1, entries = [1],
                blocks = [], size_bytes = 512\<rparr>),
       entry_store := (entry_store state_x_y)
         (1 := \<lparr>cls = File, fs = True, name = ''y'', inode = 1, entry_nlink = Some NaN\<rparr>)\<rparr>"

section \<open>Properties\<close>

subsection \<open>Running the concrete states\<close>

lemmas eval_defs =
  FileSystem_stat_def lookup_def FileSystem_new_def Directory_new_def Entry_new_def
  Inode_new_def Entry_stat_def inode_of_def upd_inode_def upd_entry_def split_path_def
  parentDir_def call_get_def Directory_get_def isDirectory_def isFile_def
  FileSystem_open_def FileDescriptor_new_def open_bind_def Directory_create_def
  File_new_def Directory_push_def FileSystem_link_def linux_def Entry_reset_def
  Directory_remove_def FileSystem_unlink_def Directory_unlink_def

lemma FileSystem_new_linux: "FileSystem_new linux = state_new"
  by (simp add: eval_defs state_new_def)

lemma open_x: "FileSystem_open state_new ''/x'' 66 0 = (Inr 20, state_x)"
  by (simp add: eval_defs state_new_def state_x_def fun_upd_twist)

lemma link_x_y: "FileSystem_link state_x ''/x'' ''/y'' = (Inr (), state_x_y)"
  by (simp add: eval_defs state_new_def state_x_def state_x_y_def fun_upd_twist)

lemma run_state_x_y:
  "run (FileSystem_new linux) [Open ''/x'' 66 0, Link ''/x'' ''/y''] = state_x_y"
  by (simp add: run_def FileSystem_new_linux open_x link_x_y)

subsection \<open>Link counts\<close>

text \<open>
  C1 (the code departs from the claim). After \<open>open('/x', O_RDWR | O_CREAT)\<close> and
  \<open>link('/x', '/y')\<close> on a new file system, the root directory holds two entries,
  \<open>x\<close> and \<open>y\<close>, that share inode 1, yet \<open>stat\<close> reports a link count of 1 for both:
  \<open>link\<close> increments a property \<open>nlink\<close> of the entry object, not the inode's.
\<close>

theorem C1_link_leaves_nlink:
  "run (FileSystem_new linux) [Open ''/x'' 66 0, Link ''/x'' ''/y''] = state_x_y
   \<and> lookup state_x_y [''x''] = Inr 1 \<and> lookup state_x_y [''y''] = Inr 2
   \<and> inode (entry_store state_x_y 1) = 1 \<and> inode (entry_store state_x_y 2) = 1
   \<and> links_in state_x_y (root state_x_y) 1 = 2
   \<and> map_sum id st_nlink (FileSystem_stat state_x_y ''/x'') = Inr 1
   \<and> map_sum id st_nlink (FileSystem_stat state_x_y ''/y'') = Inr 1"
  by (simp add: run_state_x_y)
     (simp add: eval_defs state_new_def state_x_def state_x_y_def links_in_def)

subsection \<open>Ownership\<close>

text \<open>
  C5 (the code departs from the claim). \<open>chown\<close> on the root of a new file system, an
  existing path, does not succeed: it raises \<open>ReferenceError\<close>, which carries no errno,
  and leaves the owner as it was.
\<close>

theorem C5_chown_raises_ReferenceError:
  "FileSystem_chown (FileSystem_new linux) ''/'' 1000 1000
     = (Inl ReferenceError, FileSystem_new linux)
   \<and> errno ReferenceError = None"
  by (simp add: eval_defs FileSystem_chown_def)

subsection \<open>Inode numbers\<close>

text \<open>
  C6 (the code departs from the claim). The root inode of a new file system is numbered
  \<open>NaN\<close>: the counter is still unset when the root directory is built. The first file
  created gets number 1, and \<open>NaN < 1\<close> is false, so the numbers are not increasing in
  order of creation.
\<close>

theorem C6_root_ino_is_NaN:
  "map_sum id st_ino (FileSystem_stat (FileSystem_new linux) ''/'') = Inr NaN
   \<and> map_sum id st_ino
        (FileSystem_stat (run (FileSystem_new linux) [Open ''/x'' 66 0]) ''/x'') = Inr (Num 1)
   \<and> \<not> number_less NaN (Num 1)"
  by (simp add: run_def FileSystem_new_linux open_x)
     (simp add: eval_defs state_new_def state_x_def)

subsection \<open>Opening files\<close>

lemma lookup_from_errors:
  "lookup_from s cur ps = Inl e \<Longrightarrow> e \<in> {ENOTDIR, TypeError, ENOENT}"
  by (induction s cur ps rule: lookup_from.induct) (auto split: if_splits option.splits)

lemma parentDir_errors:
  "parentDir s path = Inl e \<Longrightarrow> e \<in> {EINVAL, ENOTDIR, TypeError, ENOENT}"
  by (auto simp: parentDir_def lookup_def Let_def split: if_splits sum.splits
           dest: lookup_from_errors)

lemma call_get_errors: "call_get s d nm = Inl e \<Longrightarrow> e = TypeError"
  by (auto simp: call_get_def split: if_splits)

lemma truncate_x5: "FileSystem_truncate state_x ''/x'' 5 = (Inr (), state_x5)"
  by (simp add: FileSystem_truncate_def eval_defs state_new_def state_x_def state_x5_def)

text \<open>
  C7. Let \<open>path\<close> resolve to an existing entry \<open>f\<close> that is a regular file. With
  \<open>O_EXCL\<close> set, \<open>open\<close> raises \<open>EEXIST\<close> and changes nothing. Otherwise it returns the
  descriptor id \<open>fds.length + 20\<close>; no entry changes and no inode other than the file's
  own; with a writable, non-appending flag the file's blocks are cleared and its size is 0
  in the state in which the descriptor is returned; with an appending (or a non-writable)
  flag the file is not reset; the descriptor is bound to \<open>f\<close> and its position is the
  file's size before the call when the flag is appending, and 0 otherwise.
\<close>

theorem C7_open_existing_file:
  assumes "parentDir s path = Inr (parent, nm)"
      and "call_get s parent nm = Inr (Some f)"
      and "isFile s f"
      and "desc = FileDescriptor_new (constants s) flag (length (fds s) + 20)"
  shows "(exclusive desc \<longrightarrow> FileSystem_open s path flag m = (Inl EEXIST, s))
       \<and> (\<not> exclusive desc \<longrightarrow>
            (\<exists>s' d. FileSystem_open s path flag m = (Inr (length (fds s) + 20), s')
               \<and> lookupFd s' (int (length (fds s) + 20)) = Inr d
               \<and> fd_file d = Some f
               \<and> position d = (if appending desc then size_bytes (inode_of s f) else 0)
               \<and> entry_store s' = entry_store s
               \<and> (\<forall>a. a \<noteq> inode (entry_store s f) \<longrightarrow> inode_store s' a = inode_store s a)
               \<and> (writable desc \<and> \<not> appending desc \<longrightarrow>
                     blocks (inode_of s' f) = [] \<and> size_bytes (inode_of s' f) = 0)
               \<and> (appending desc \<or> \<not> writable desc \<longrightarrow> inode_store s' = inode_store s)))"
  using assms
  by (auto simp: FileSystem_open_def open_bind_def Let_def lookupFd_def fds_at_def
        FileDescriptor_new_def Entry_reset_def upd_inode_def inode_of_def nth_append)

text \<open>
  The file \<open>/x\<close> of \<open>state_x5\<close> has size 5. Opened with \<open>O_WRONLY\<close> it is reset and the
  position is 0; opened with \<open>O_WRONLY | O_APPEND\<close> it keeps its size and the position
  is 5.
\<close>

theorem C7_open_existing_file_witness:
  "size_bytes (inode_of state_x5 1) = 5
   \<and> (\<exists>s' d. FileSystem_open state_x5 ''/x'' 1 0 = (Inr 21, s')
          \<and> lookupFd s' 21 = Inr d \<and> fd_file d = Some 1 \<and> position d = 0
          \<and> blocks (inode_of s' 1) = [] \<and> size_bytes (inode_of s' 1) = 0)
   \<and> (\<exists>s' d. FileSystem_open state_x5 ''/x'' 1025 0 = (Inr 21, s')
          \<and> lookupFd s' 21 = Inr d \<and> fd_file d = Some 1 \<and> position d = 5
          \<and> inode_store s' = inode_store state_x5)"
proof -
  have h1: "parentDir state_x5 ''/x'' = Inr (0, ''x'')"
    by (simp add: eval_defs state_new_def state_x_def state_x5_def)
  have h2: "call_get state_x5 0 ''x'' = Inr (Some 1)"
    by (simp add: eval_defs state_new_def state_x_def state_x5_def)
  have h3: "isFile state_x5 1"
    by (simp add: eval_defs state_new_def state_x_def state_x5_def File_truncate_def)
  have sz: "size_bytes (inode_of state_x5 1) = 5"
    by (simp add: eval_defs state_new_def state_x_def state_x5_def File_truncate_def)
  have n: "length (fds state_x5) + 20 = 21" "constants state_x5 = linux"
    by (simp_all add: state_new_def state_x_def state_x5_def upd_inode_def)
  have f1: "\<not> exclusive (FileDescriptor_new linux 1 21)"
           "writable (FileDescriptor_new linux 1 21)"
           "\<not> appending (FileDescriptor_new linux 1 21)"
    by (simp_all add: FileDescriptor_new_def linux_def)
  have f2: "\<not> exclusive (FileDescriptor_new linux 1025 21)"
           "appending (FileDescriptor_new linux 1025 21)"
    by (simp_all add: FileDescriptor_new_def linux_def)
  from C7_open_existing_file[OF h1 h2 h3 refl, of 1 0] f1
  have a: "\<exists>s' d. FileSystem_open state_x5 ''/x'' 1 0 = (Inr 21, s')
          \<and> lookupFd s' 21 = Inr d \<and> fd_file d = Some 1 \<and> position d = 0
          \<and> blocks (inode_of s' 1) = [] \<and> size_bytes (inode_of s' 1) = 0"
    unfolding n by auto
  from C7_open_existing_file[OF h1 h2 h3 refl, of 1025 0] f2
  have b: "\<exists>s' d. FileSystem_open state_x5 ''/x'' 1025 0 = (Inr 21, s')
          \<and> lookupFd s' 21 = Inr d \<and> fd_file d = Some 1 \<and> position d = 5
          \<and> inode_store s' = inode_store state_x5"
    unfolding n sz by auto
  from sz a b show ?thesis by blast
qed

text \<open>
  C10. When \<open>open\<close> raises, the state it leaves is the state it was called in: the
  tree, every inode (so every file's size and blocks) and the descriptor table are
  unchanged. The error is one of \<open>EINVAL\<close>, \<open>ENOENT\<close>, \<open>ENOTDIR\<close>, \<open>EPERM\<close>,
  \<open>EEXIST\<close>, or the \<open>TypeError\<close> of a path that runs through an object of class
  \<open>File\<close> whose mode has the directory bit.
\<close>

theorem C10_open_atomic_on_failure:
  assumes "FileSystem_open s path flag m = (Inl e, s')"
  shows "s' = s \<and> e \<in> {EINVAL, ENOENT, ENOTDIR, EPERM, EEXIST, TypeError}"
  using assms
  by (auto simp: FileSystem_open_def open_bind_def Let_def
           split: sum.splits option.splits prod.splits if_splits
           dest: parentDir_errors call_get_errors)

text \<open>
  \<open>open('/x', O_RDWR | O_CREAT | O_EXCL)\<close> on \<open>state_x\<close>, where \<open>/x\<close> exists, raises
  \<open>EEXIST\<close> and leaves \<open>state_x\<close>.
\<close>

theorem C10_open_atomic_on_failure_witness:
  "fst (FileSystem_open state_x ''/x'' 194 0) = Inl EEXIST
   \<and> snd (FileSystem_open state_x ''/x'' 194 0) = state_x"
proof -
  have a: "fst (FileSystem_open state_x ''/x'' 194 0) = Inl EEXIST"
    by (simp add: eval_defs state_new_def state_x_def)
  then have "FileSystem_open state_x ''/x'' 194 0
               = (Inl EEXIST, snd (FileSystem_open state_x ''/x'' 194 0))"
    by (metis prod.collapse)
  from C10_open_atomic_on_failure[OF this] a show ?thesis by simp
qed

subsection \<open>Reading and writing file bodies\<close>

lemma empty_file_state_x: "inode_of state_x 1 = empty_file"
  by (simp add: inode_of_def state_x_def state_new_def empty_file_def)

lemma length_Buffer_alloc [simp]: "length (Buffer_alloc n) = n"
  by (simp add: Buffer_alloc_def)

lemma Buffer_copy_Nil [simp]: "Buffer_copy [] t = t"
  by (simp add: Buffer_copy_def)

lemma Buffer_slice_from_Nil [simp]: "Buffer_slice_from [] k = []"
  by (simp add: Buffer_slice_from_def)

lemma BLOCK_SIZE_pos [simp]: "0 < BLOCK_SIZE"
  by (simp add: BLOCK_SIZE_def)

lemma block_at_length: "wf_blocks blks \<Longrightarrow>
  length (case block_at blks i of Some b \<Rightarrow> b | None \<Rightarrow> Buffer_alloc BLOCK_SIZE) = BLOCK_SIZE"
  by (auto simp: wf_blocks_def block_at_def split: option.splits dest: nth_mem)

lemma stuck_slice:
  assumes "length b = BLOCK_SIZE" "stuck f i"
  shows "(if (i + 1) * BLOCK_SIZE + length b > size_bytes f
          then Buffer_slice b 0 (int (size_bytes f) - int ((i + 1) * BLOCK_SIZE))
          else b) = []"
proof (cases "size_bytes f \<le> i * BLOCK_SIZE")
  case True
  then have le: "int (size_bytes f) \<le> int i * int BLOCK_SIZE"
    by (metis of_nat_le_iff of_nat_mult)
  have pos: "0 < int BLOCK_SIZE" by simp
  have "int (size_bytes f) - int ((i + 1) * BLOCK_SIZE) + int (length b) \<le> 0"
    using le assms(1) by (simp add: algebra_simps)
  moreover have "int (size_bytes f) < int i * int BLOCK_SIZE + int BLOCK_SIZE"
    using le pos by linarith
  then have "int (size_bytes f) - int ((i + 1) * BLOCK_SIZE) < 0"
    by (simp add: algebra_simps)
  moreover have "size_bytes f < i * BLOCK_SIZE + BLOCK_SIZE"
    using True BLOCK_SIZE_pos by linarith
  then have "(i + 1) * BLOCK_SIZE + length b > size_bytes f"
    using assms(1) by (simp add: algebra_simps)
  ultimately show ?thesis
    by (simp add: Buffer_slice_def adjustOffset_def)
next
  case False
  then have e: "size_bytes f = (i + 1) * BLOCK_SIZE" using assms(2) by (simp add: stuck_def)
  then show ?thesis using assms(1)
    by (simp add: Buffer_slice_def adjustOffset_def)
qed

lemma stuck_blk:
  assumes "wf_blocks (blocks f)" "stuck f i"
  shows "File_read_blk f i ofs = []"
proof -
  let ?b = "case block_at (blocks f) i of Some b \<Rightarrow> b | None \<Rightarrow> Buffer_alloc BLOCK_SIZE"
  have len: "length ?b = BLOCK_SIZE" using assms block_at_length by blast
  show ?thesis unfolding File_read_blk_def Let_def stuck_slice[OF len assms(2)] by simp
qed

lemma File_read_loop_stuck:
  assumes "File_read_loop f i ofs start offset buffer = Some y"
  shows "\<not> (wf_blocks (blocks f) \<and> stuck f i \<and> start < length buffer \<and> offset < size_bytes f)"
proof (rule File_read_loop.raw_induct[where P = "\<lambda>f i ofs start offset buffer y.
    \<not> (wf_blocks (blocks f) \<and> stuck f i \<and> start < length buffer \<and> offset < size_bytes f)", OF _ assms])
  fix loop :: "inode \<Rightarrow> nat \<Rightarrow> nat \<Rightarrow> nat \<Rightarrow> nat \<Rightarrow> buffer \<Rightarrow> (nat \<times> buffer) option"
  fix f i ofs start offset buffer y
  assume IH: "\<And>f i ofs start offset buffer y. loop f i ofs start offset buffer = Some y \<Longrightarrow>
     \<not> (wf_blocks (blocks f) \<and> stuck f i \<and> start < length buffer \<and> offset < size_bytes f)"
  and body: "(if start < length buffer \<and> offset < size_bytes f then
        loop f (i + 1) 0
          (start + length (File_read_blk f i ofs))
          (offset + length (File_read_blk f i ofs))
          (take start buffer @ Buffer_copy (File_read_blk f i ofs) (drop start buffer))
      else Some (start, buffer)) = Some y"
  show "\<not> (wf_blocks (blocks f) \<and> stuck f i \<and> start < length buffer \<and> offset < size_bytes f)"
  proof
    assume a: "wf_blocks (blocks f) \<and> stuck f i \<and> start < length buffer \<and> offset < size_bytes f"
    then have e: "File_read_blk f i ofs = []" using stuck_blk by blast
    have st: "stuck f (i + 1)" using a by (auto simp: stuck_def)
    from body a e have "loop f (i + 1) 0 start offset buffer = Some y"
      by simp
    from IH[OF this] a st show False by blast
  qed
qed

lemma File_read_loop_never:
  assumes "wf_blocks (blocks f)" "stuck f i" "start < length buffer" "offset < size_bytes f"
  shows "File_read_loop f i ofs start offset buffer = None"
  using File_read_loop_stuck[of f i ofs start offset buffer] assms
  by (cases "File_read_loop f i ofs start offset buffer") auto

lemma File_read_loop_round:
  assumes "start < length buffer" "offset < size_bytes f"
  shows "File_read_loop f i ofs start offset buffer =
         File_read_loop f (Suc i) 0 (start + length (File_read_blk f i ofs))
          (offset + length (File_read_blk f i ofs))
          (take start buffer @ Buffer_copy (File_read_blk f i ofs) (drop start buffer))"
  using assms by (subst File_read_loop.simps) simp

lemma File_read_loop_exit:
  assumes "\<not> (start < length buffer \<and> offset < size_bytes f)"
  shows "File_read_loop f i ofs start offset buffer = Some (start, buffer)"
  using assms by (subst File_read_loop.simps) auto

lemma File_write_loop_round:
  assumes "start < length buffer" "offset < sz"
  shows "File_write_loop buffer sz i ofs start offset blks =
         File_write_loop buffer sz (Suc i) 0
          (start + length (File_write_blk blks i ofs))
          (offset + length (File_write_blk blks i ofs))
          (set_block blks i (File_write_block blks i ofs (drop start buffer)))"
  using assms by (subst File_write_loop.simps) simp

lemma File_write_loop_exit:
  assumes "\<not> (start < length buffer \<and> offset < sz)"
  shows "File_write_loop buffer sz i ofs start offset blks = Some (start, blks)"
  using assms by (subst File_write_loop.simps) auto

lemmas file_defs = File_write_blk_def File_write_block_def block_at_def set_block_def
  Buffer_copy_def Buffer_alloc_def Buffer_slice_def Buffer_slice_from_def adjustOffset_def
  File_read_blk_def

lemma write_full: "File_write empty_file 0 (replicate BLOCK_SIZE 1) = Some (BLOCK_SIZE, full_file)"
proof -
  have "File_write_loop (replicate BLOCK_SIZE 1) BLOCK_SIZE 0 0 0 0 [] = Some (BLOCK_SIZE, [Some (replicate BLOCK_SIZE 1)])"
    by (subst File_write_loop_round; simp add: file_defs)
       (subst File_write_loop_exit; simp)
  then show ?thesis
    by (simp add: File_write_def empty_file_def full_file_def)
qed

lemma read_full: "File_read full_file 0 [0] = None"
proof -
  have "wf_blocks (blocks full_file)" by (simp add: wf_blocks_def full_file_def)
  moreover have "stuck full_file 0" by (simp add: stuck_def full_file_def)
  moreover have "0 < size_bytes full_file" by  (simp add: full_file_def)
  ultimately have "File_read_loop full_file 0 0 0 0 [0] = None"
    by (intro File_read_loop_never) simp_all
  then show ?thesis by (simp add: File_read_def)
qed

lemma write_sparse: "File_write empty_file BLOCK_SIZE [120] = Some (1, sparse_file)"
proof -
  have "File_write_loop [120] (BLOCK_SIZE + 1) 1 0 0 BLOCK_SIZE [] = Some (BLOCK_SIZE, [None, Some (120 # replicate (BLOCK_SIZE - 1) 0)])"
    by (subst File_write_loop_round; simp add: file_defs)
       (subst File_write_loop_exit; simp add: BLOCK_SIZE_def)
  then show ?thesis
    by (simp add: File_write_def empty_file_def sparse_file_def) (simp add: BLOCK_SIZE_def)
qed

lemma blk_sparse_0: "File_read_blk sparse_file 0 0 = [0]"
  by (simp add: file_defs sparse_file_def BLOCK_SIZE_def)

lemma blk_sparse_1: "File_read_blk sparse_file (Suc 0) 0 = [120]"
  by (simp add: file_defs sparse_file_def BLOCK_SIZE_def)

lemma sz_sparse: "size_bytes sparse_file = BLOCK_SIZE + 1"
  by (simp add: sparse_file_def)

lemma read_sparse: "File_read sparse_file 0 (replicate (BLOCK_SIZE + 1) 0) = None"
proof -
  have wf: "wf_blocks (blocks sparse_file)"
    by (auto simp: wf_blocks_def sparse_file_def BLOCK_SIZE_def)
  have st: "stuck sparse_file (Suc (Suc 0))" by (simp add: stuck_def sz_sparse BLOCK_SIZE_def)
  have "File_read_loop sparse_file 0 0 0 0 (replicate (BLOCK_SIZE + 1) 0) = None"
    apply (subst File_read_loop_round; simp add: sz_sparse blk_sparse_0 BLOCK_SIZE_def)
    apply (subst File_read_loop_round; simp add: sz_sparse blk_sparse_1 Buffer_copy_def BLOCK_SIZE_def)
    apply (rule File_read_loop_never[OF wf st]; simp add: sz_sparse BLOCK_SIZE_def)
    done
  then show ?thesis by (simp add: File_read_def)
qed

lemma read_sparse_2: "File_read sparse_file 0 [7, 7] = Some (2, [0, 120])"
proof -
  have "File_read_loop sparse_file 0 0 0 0 [7, 7] = Some (2, [0, 120])"
    apply (subst File_read_loop_round; simp add: sz_sparse blk_sparse_0)
    apply (subst File_read_loop_round; simp add: sz_sparse blk_sparse_1 Buffer_copy_def)
    apply (subst File_read_loop_exit; simp)
    done
  then show ?thesis by (simp add: File_read_def)
qed

lemma write_ab: "File_write sparse_file 0 [97, 98] = Some (2, sparse_file_ab)"
proof -
  have "File_write_loop [97, 98] (BLOCK_SIZE + 1) 0 0 0 0 (blocks sparse_file) = Some (BLOCK_SIZE, blocks sparse_file_ab)"
    by (subst File_write_loop_round; simp add: file_defs sparse_file_def sparse_file_ab_def)
       (subst File_write_loop_exit; simp add: BLOCK_SIZE_def numeral_2_eq_2)
  then show ?thesis
    by (simp add: File_write_def sz_sparse) (simp add: sparse_file_def sparse_file_ab_def BLOCK_SIZE_def)
qed

lemma read_ab: "File_read sparse_file_ab 0 [0, 0] = Some (2, [97, 120])"
proof -
  have b0: "File_read_blk sparse_file_ab 0 0 = [97]"
    by (simp add: file_defs sparse_file_ab_def BLOCK_SIZE_def)
  have b1: "File_read_blk sparse_file_ab (Suc 0) 0 = [120]"
    by (simp add: file_defs sparse_file_ab_def BLOCK_SIZE_def)
  have sz: "size_bytes sparse_file_ab = BLOCK_SIZE + 1" by (simp add: sparse_file_ab_def)
  have "File_read_loop sparse_file_ab 0 0 0 0 [0, 0] = Some (2, [97, 120])"
    apply (subst File_read_loop_round; simp add: sz b0)
    apply (subst File_read_loop_round; simp add: sz b1 Buffer_copy_def)
    apply (subst File_read_loop_exit; simp)
    done
  then show ?thesis by (simp add: File_read_def)
qed

text \<open>
  \<open>File.write\<close> does return on every file whose blocks are well formed, and it
  returns the length of the buffer: each round advances by the length of the view,
  which is not 0.
\<close>

lemma length_File_write_blk:
  assumes "wf_blocks blks" "ofs < BLOCK_SIZE"
  shows "length (File_write_blk blks i ofs) = BLOCK_SIZE - ofs"
proof -
  let ?w = "case block_at blks i of Some b \<Rightarrow> b | None \<Rightarrow> Buffer_alloc BLOCK_SIZE"
  have "length ?w = BLOCK_SIZE" using assms(1) by (rule block_at_length)
  then show ?thesis using assms(2)
    by (auto simp: File_write_blk_def Let_def Buffer_slice_from_def adjustOffset_def)
qed

lemma length_File_write_block:
  assumes "wf_blocks blks" "ofs < BLOCK_SIZE"
  shows "length (File_write_block blks i ofs src) = BLOCK_SIZE"
proof -
  let ?w = "case block_at blks i of Some b \<Rightarrow> b | None \<Rightarrow> Buffer_alloc BLOCK_SIZE"
  have w: "length ?w = BLOCK_SIZE" using assms(1) by (rule block_at_length)
  have b: "length (File_write_blk blks i ofs) = BLOCK_SIZE - ofs"
    using assms by (rule length_File_write_blk)
  have c: "length (Buffer_copy src t) = length t" for t
    by (auto simp: Buffer_copy_def)
  show ?thesis using assms(2)
    unfolding File_write_block_def Let_def by (simp add: w b c)
qed

lemma wf_blocks_set_block:
  assumes "wf_blocks blks" "length b = BLOCK_SIZE"
  shows "wf_blocks (set_block blks i b)"
  using assms
  by (auto simp: wf_blocks_def set_block_def dest!: set_update_subset_insert[THEN subsetD])

lemma File_write_loop_returns:
  assumes "wf_blocks blks" "ofs < BLOCK_SIZE" "offset + length buffer \<le> sz + start"
  shows "\<exists>st blks1. File_write_loop buffer sz i ofs start offset blks = Some (st, blks1)
           \<and> (buffer \<noteq> [] \<longrightarrow> length buffer \<le> st) \<and> wf_blocks blks1"
  using assms
proof (induction "length buffer - start" arbitrary: i ofs start offset blks rule: less_induct)
  case less
  show ?case
  proof (cases "start < length buffer")
    case False
    have "File_write_loop buffer sz i ofs start offset blks = Some (start, blks)"
      using False by (intro File_write_loop_exit) simp
    then show ?thesis using False less.prems(1) by auto
  next
    case True
    then have o: "offset < sz" using less.prems(3) by linarith
    let ?L = "length (File_write_blk blks i ofs)"
    let ?b = "set_block blks i (File_write_block blks i ofs (drop start buffer))"
    have L: "?L = BLOCK_SIZE - ofs" using less.prems(1,2) by (rule length_File_write_blk)
    then have Lpos: "0 < ?L" using less.prems(2) by simp
    have wf: "wf_blocks ?b"
      using less.prems(1) length_File_write_block[OF less.prems(1,2)]
      by (rule wf_blocks_set_block)
    have m: "length buffer - (start + ?L) < length buffer - start"
      using True Lpos by linarith
    have b: "offset + ?L + length buffer \<le> sz + (start + ?L)"
      using less.prems(3) by simp
    from less.hyps[OF m wf _ b, of 0 "Suc i"]
    obtain st blks1 where r: "File_write_loop buffer sz (Suc i) 0 (start + ?L) (offset + ?L) ?b
        = Some (st, blks1)" "buffer \<noteq> [] \<longrightarrow> length buffer \<le> st" "wf_blocks blks1"
      by auto
    show ?thesis
      unfolding File_write_loop_round[OF True o] using r by blast
  qed
qed

lemma File_write_returns:
  assumes "wf_blocks (blocks f)"
  shows "\<exists>f1. File_write f offset buffer = Some (length buffer, f1) \<and> wf_blocks (blocks f1)"
proof -
  let ?sz = "if offset + length buffer > size_bytes f then offset + length buffer
             else size_bytes f"
  have "offset + length buffer \<le> ?sz + 0" by simp
  from File_write_loop_returns[OF assms _ this, of "offset mod BLOCK_SIZE" "offset div BLOCK_SIZE"]
  obtain st blks1 where r: "File_write_loop buffer ?sz (offset div BLOCK_SIZE)
       (offset mod BLOCK_SIZE) 0 offset (blocks f) = Some (st, blks1)"
     "buffer \<noteq> [] \<longrightarrow> length buffer \<le> st" "wf_blocks blks1"
    by auto
  have "min (length buffer) st = length buffer" using r(2) by (cases "buffer = []") auto
  then show ?thesis using r(1,3) by (simp add: File_write_def Let_def)
qed

text \<open>
  C2 (the code departs from the claim). The spec's own example: after
  \<open>write(1048576, "x")\<close> on an empty file, \<open>read(0, b)\<close> with a buffer of 1048577 bytes
  does not return: after two rounds, which copy one byte each, every round copies
  nothing and the loop condition stays true. With a buffer of 2 bytes the same read
  returns 2 bytes, \<open>0\<close> and \<open>'x'\<close>, although bytes 0 and 1 of the file are both 0.
\<close>

theorem C2_sparse_read:
  "File_write empty_file BLOCK_SIZE [120] = Some (1, sparse_file)
   \<and> File_read sparse_file 0 (replicate (BLOCK_SIZE + 1) 0) = None
   \<and> File_read sparse_file 0 [7, 7] = Some (2, [0, 120])"
  using write_sparse read_sparse read_sparse_2 by blast

text \<open>
  C3 (the code departs from the claim). A file of exactly \<open>BLOCK_SIZE\<close> bytes: after
  \<open>write(0, b)\<close> with \<open>BLOCK_SIZE\<close> bytes on an empty file, \<open>read(0, c)\<close> with a buffer
  of one byte never returns.
\<close>

theorem C3_read_does_not_return:
  "File_write empty_file 0 (replicate BLOCK_SIZE 1) = Some (BLOCK_SIZE, full_file)
   \<and> File_read full_file 0 [0] = None"
  using write_full read_full by blast

text \<open>
  C4 (the code departs from the claim). On the sparse file, \<open>write(0, "ab")\<close> returns 2,
  and the following \<open>read(0, b)\<close> with a buffer of 2 bytes fills it with \<open>"ax"\<close>.
\<close>

theorem C4_round_trip_fails:
  "File_write sparse_file 0 [97, 98] = Some (2, sparse_file_ab)
   \<and> File_read sparse_file_ab 0 [0, 0] = Some (2, [97, 120])"
  using write_ab read_ab by blast

subsection \<open>The descriptor table\<close>

declare pop_nulls.simps [simp del]

lemma pop_nulls_Nil [simp]: "pop_nulls [] = []"
  by (simp add: pop_nulls.simps)

lemma pop_nulls_snoc [simp]:
  "pop_nulls (xs @ [x]) = (if x = None then pop_nulls xs else xs @ [x])"
  by (subst pop_nulls.simps) simp

lemma pop_nulls_prefix: "\<exists>n. pop_nulls xs = take n xs \<and> n \<le> length xs \<and> (\<forall>i. n \<le> i \<and> i < length xs \<longrightarrow> xs ! i = None)"
proof (induction xs rule: rev_induct)
  case Nil
  then show ?case by simp
next
  case (snoc x xs)
  show ?case
  proof (cases "x = None")
    case True
    from snoc obtain n where n: "pop_nulls xs = take n xs" "n \<le> length xs"
      "\<forall>i. n \<le> i \<and> i < length xs \<longrightarrow> xs ! i = None" by blast
    have "\<forall>i. n \<le> i \<and> i < length (xs @ [x]) \<longrightarrow> (xs @ [x]) ! i = None"
      using n(3) True by (auto simp: nth_append)
    with n True show ?thesis by (intro exI[of _ n]) simp
  next
    case False
    then show ?thesis by (intro exI[of _ "Suc (length xs)"]) auto
  qed
qed

lemma trimmed_pop_nulls: "trimmed (pop_nulls xs)"
  by (induction xs rule: rev_induct) (auto simp: trimmed_def)

lemma fds_at_pop_nulls: "fds_at (pop_nulls xs) k = fds_at xs k"
proof -
  from pop_nulls_prefix[of xs] obtain n where n: "pop_nulls xs = take n xs" "n \<le> length xs"
      "\<forall>i. n \<le> i \<and> i < length xs \<longrightarrow> xs ! i = None" by blast
  show ?thesis
  proof (cases "0 \<le> k \<and> k < int (length xs)")
    case True
    then show ?thesis using n by (cases "nat k < n") (auto simp: fds_at_def)
  next
    case False
    then show ?thesis using n by (auto simp: fds_at_def)
  qed
qed

lemma fds_at_update:
  "fds_at (xs[nat k := None]) j = (if j = k \<or> j < 0 then None else fds_at xs j)"
  if "0 \<le> k"
  using that by (auto simp: fds_at_def nth_list_update)

lemma close_EBADF:
  "fds_at (fds s) (fd - 20) = None \<Longrightarrow> FileSystem_close s fd = (Inl EBADF, s)"
  by (simp add: FileSystem_close_def)

lemma fds_at_Some_range: "fds_at xs k = Some d \<Longrightarrow> 0 \<le> k \<and> k < int (length xs)"
  by (auto simp: fds_at_def split: if_splits)

lemma close_ok:
  assumes "fds_at (fds s) (fd - 20) = Some d"
  shows "\<exists>s'. FileSystem_close s fd = (Inr (), s')
           \<and> fds s' = pop_nulls ((fds s)[nat (fd - 20) := None])
           \<and> lookupFd s' fd = Inl EBADF \<and> trimmed (fds s')
           \<and> (\<forall>fd1. fd1 \<noteq> fd \<longrightarrow> lookupFd s' fd1 = lookupFd s fd1)"
proof -
  from assms have r: "0 \<le> fd - 20" using fds_at_Some_range by blast
  have "\<And>j. fds_at (pop_nulls ((fds s)[nat (fd - 20) := None])) j
            = (if j = fd - 20 then None else fds_at (fds s) j)"
    using r by (auto simp: fds_at_pop_nulls fds_at_update) (simp add: fds_at_def)
  then show ?thesis using assms
    by (simp add: FileSystem_close_def lookupFd_def trimmed_pop_nulls)
qed

lemma open_fds_close:
  assumes "fds_at (fds s) (fd - 20) = Some d"
  shows "open_fds (snd (FileSystem_close s fd)) = open_fds s - {fd}"
proof -
  from close_ok[OF assms] obtain s' where s': "FileSystem_close s fd = (Inr (), s')"
    "lookupFd s' fd = Inl EBADF" "\<forall>fd1. fd1 \<noteq> fd \<longrightarrow> lookupFd s' fd1 = lookupFd s fd1" by blast
  have n: "\<And>t fd1. (fds_at (fds t) (fd1 - 20) = None) = (lookupFd t fd1 = Inl EBADF)"
    by (simp add: lookupFd_def split: option.splits)
  have "\<And>fd1. (fds_at (fds s') (fd1 - 20) = None) = (fd1 = fd \<or> fds_at (fds s) (fd1 - 20) = None)"
    unfolding n using s'(2,3) by metis
  then show ?thesis using s'(1) by (auto simp: open_fds_def)
qed

lemma no_open_fds_empty:
  assumes "trimmed xs" "\<forall>fd. fds_at xs (fd - 20) = None"
  shows "xs = []"
proof (rule ccontr)
  assume ne: "xs \<noteq> []"
  with assms(1) have "last xs \<noteq> None" by (simp add: trimmed_def)
  moreover have "fds_at xs (int (length xs - 1) + 20 - 20) = None" using assms(2) by blast
  ultimately show False using ne by (simp add: fds_at_def last_conv_nth)
qed

lemma close_all_empty:
  "trimmed (fds s) \<Longrightarrow> distinct ids \<Longrightarrow> set ids = open_fds s
     \<Longrightarrow> fds (run s (map Close ids)) = []"
proof (induction ids arbitrary: s)
  case Nil
  then show ?case by (simp add: run_def open_fds_def no_open_fds_empty)
next
  case (Cons fd ids)
  then have "fd \<in> open_fds s" by auto
  then obtain d where d: "fds_at (fds s) (fd - 20) = Some d" by (auto simp: open_fds_def)
  let ?s1 = "snd (FileSystem_close s fd)"
  have t: "trimmed (fds ?s1)" using close_ok[OF d] by auto
  have o: "set ids = open_fds ?s1" using Cons.prems open_fds_close[OF d] by auto
  from Cons.IH[OF t _ o] Cons.prems(2) show ?case by (simp add: run_def)
qed


lemma fds_upd [simp]:
  "fds (upd_inode s a g) = fds s" "fds (upd_entry s b h) = fds s"
  by (simp_all add: upd_inode_def upd_entry_def)

lemma fds_Entry_new: "Entry_new s k m f n i = (a, s') \<Longrightarrow> fds s' = fds s"
  by (auto simp: Entry_new_def Inode_new_def Let_def split: option.splits prod.splits)

lemma fds_Directory_new: "Directory_new s f n i = (a, s') \<Longrightarrow> fds s' = fds s"
  by (auto simp: Directory_new_def split: prod.splits dest: fds_Entry_new)

lemma fds_File_new: "File_new s f n i = (a, s') \<Longrightarrow> fds s' = fds s"
  by (auto simp: File_new_def dest: fds_Entry_new)

lemma fds_Directory_prims [simp]:
  "fds (Directory_push s d e) = fds s"
  "fds (Directory_remove s d e) = fds s"
  "fds (Entry_reset s e) = fds s"
  by (simp_all add: Directory_push_def Directory_remove_def Entry_reset_def Let_def)

lemma fds_Directory_create: "Directory_create s d nm m = (a, s') \<Longrightarrow> fds s' = fds s"
  by (auto simp: Directory_create_def split: option.splits prod.splits dest: fds_File_new)

lemma fds_Directory_mkdir: "Directory_mkdir s d nm = (r, s') \<Longrightarrow> fds s' = fds s"
  by (auto simp: Directory_mkdir_def split: if_splits prod.splits dest: fds_Directory_new)

lemma fds_Directory_rmdir: "Directory_rmdir s d nm = (r, s') \<Longrightarrow> fds s' = fds s"
  by (auto simp: Directory_rmdir_def split: option.splits if_splits)

lemma fds_Directory_unlink: "Directory_unlink s d nm = (r, s') \<Longrightarrow> fds s' = fds s"
  by (auto simp: Directory_unlink_def split: option.splits if_splits)

lemma fds_FileSystem_mkdir: "FileSystem_mkdir s path m = (r, s') \<Longrightarrow> fds s' = fds s"
  by (auto simp: FileSystem_mkdir_def split: sum.splits prod.splits if_splits
           dest: fds_Directory_mkdir)

lemma fds_FileSystem_rmdir: "FileSystem_rmdir s path = (r, s') \<Longrightarrow> fds s' = fds s"
  by (auto simp: FileSystem_rmdir_def split: sum.splits prod.splits if_splits
           dest: fds_Directory_rmdir)

lemma fds_FileSystem_unlink: "FileSystem_unlink s path = (r, s') \<Longrightarrow> fds s' = fds s"
  by (auto simp: FileSystem_unlink_def split: sum.splits prod.splits if_splits
           dest: fds_Directory_unlink)

lemma fds_FileSystem_link: "FileSystem_link s p q = (r, s') \<Longrightarrow> fds s' = fds s"
  by (auto simp: FileSystem_link_def Let_def
           split: sum.splits prod.splits option.splits if_splits dest!: fds_File_new)

lemma fds_rename_target: "rename_target s tp fe te_opt = Inr s1 \<Longrightarrow> fds s1 = fds s"
  by (auto simp: rename_target_def split: option.splits if_splits)

lemma fds_FileSystem_rename: "FileSystem_rename s p q = (r, s') \<Longrightarrow> fds s' = fds s"
  by (auto simp: FileSystem_rename_def Let_def
           split: sum.splits prod.splits option.splits dest: fds_rename_target)

lemma open_bind_fds:
  "open_bind s desc f = (r, s') \<Longrightarrow>
     r = Inr (fd_id desc) \<and> (\<exists>d. fds s' = fds s @ [Some d] \<and> fd_id d = fd_id desc)"
  by (auto simp: open_bind_def Let_def)

lemma fd_id_FileDescriptor_new [simp]: "fd_id (FileDescriptor_new c flag i) = i"
  by (simp add: FileDescriptor_new_def Let_def)

lemma open_Inr:
  assumes "FileSystem_open s path flag m = (Inr fd, s')"
  shows "fd = length (fds s) + 20 \<and> (\<exists>d. fds s' = fds s @ [Some d] \<and> fd_id d = fd)"
  using assms
  by (auto simp: FileSystem_open_def Let_def
        split: sum.splits prod.splits option.splits if_splits
        dest!: open_bind_fds fds_Directory_create)

lemma open_Inl: "FileSystem_open s path flag m = (Inl e, s') \<Longrightarrow> s' = s"
  by (auto simp: FileSystem_open_def open_bind_def Let_def
           split: sum.splits option.splits prod.splits if_splits)

lemma open_fds_cases:
  assumes "FileSystem_open s path flag m = (r, s')"
  shows "fds s' = fds s \<or> (\<exists>d. fds s' = fds s @ [Some d])"
proof (cases r)
  case (Inl e)
  then show ?thesis using assms open_Inl by blast
next
  case (Inr fd)
  then show ?thesis using assms open_Inr by blast
qed


lemma apply_op_fds:
  "(\<exists>fd. o1 = Close fd \<and> fds (apply_op s o1) = fds (snd (FileSystem_close s fd)))
   \<or> fds (apply_op s o1) = fds s \<or> (\<exists>d. fds (apply_op s o1) = fds s @ [Some d])"
proof (cases o1)
  case (Mkdir p m)
  then show ?thesis using fds_FileSystem_mkdir[of s p m] by (metis apply_op.simps(1) prod.collapse)
next
  case (Rmdir p)
  then show ?thesis using fds_FileSystem_rmdir[of s p] by (metis apply_op.simps(2) prod.collapse)
next
  case (Unlink p)
  then show ?thesis using fds_FileSystem_unlink[of s p] by (metis apply_op.simps(3) prod.collapse)
next
  case (Link p q)
  then show ?thesis using fds_FileSystem_link[of s p q] by (metis apply_op.simps(4) prod.collapse)
next
  case (Rename p q)
  then show ?thesis using fds_FileSystem_rename[of s p q] by (metis apply_op.simps(5) prod.collapse)
next
  case (Open p f m)
  then show ?thesis using open_fds_cases[of s p f m] by (metis apply_op.simps(6) prod.collapse)
next
  case (Close fd)
  then show ?thesis by simp
qed

lemma fds_at_append: "fds_at xs k = Some d \<Longrightarrow> fds_at (xs @ ys) k = Some d"
  by (auto simp: fds_at_def nth_append split: if_splits)

lemma close_fds_cases:
  "fds (snd (FileSystem_close s fd)) = fds s
   \<or> (\<exists>d. fds_at (fds s) (fd - 20) = Some d \<and>
           fds (snd (FileSystem_close s fd)) = pop_nulls ((fds s)[nat (fd - 20) := None]))"
  by (cases "fds_at (fds s) (fd - 20)") (auto simp: FileSystem_close_def)

lemma lookupFd_stable:
  assumes "lookupFd s fd0 = Inr d" "o1 \<noteq> Close fd0"
  shows "lookupFd (apply_op s o1) fd0 = Inr d"
proof -
  from assms(1) have a: "fds_at (fds s) (fd0 - 20) = Some d"
    by (auto simp: lookupFd_def split: option.splits)
  consider (c) fd where "o1 = Close fd" "fds (apply_op s o1) = fds (snd (FileSystem_close s fd))"
    | (same) "fds (apply_op s o1) = fds s"
    | (app) d1 where "fds (apply_op s o1) = fds s @ [Some d1]"
    using apply_op_fds[of o1 s] by blast
  then show ?thesis
  proof cases
    case c
    then have ne: "fd \<noteq> fd0" using assms(2) by auto
    show ?thesis
    proof (cases "fds_at (fds s) (fd - 20)")
      case None
      then show ?thesis using c assms(1) by (simp add: close_EBADF)
    next
      case (Some d2)
      from close_ok[OF Some] ne have "lookupFd (snd (FileSystem_close s fd)) fd0 = lookupFd s fd0"
        by auto
      then show ?thesis using c assms(1) by simp
    qed
  next
    case same
    then show ?thesis using a by (simp add: lookupFd_def)
  next
    case app
    then show ?thesis using fds_at_append[OF a] by (simp add: lookupFd_def)
  qed
qed

lemma trimmed_apply_op: "trimmed (fds s) \<Longrightarrow> trimmed (fds (apply_op s o1))"
proof -
  assume t: "trimmed (fds s)"
  consider (c) fd where "o1 = Close fd" "fds (apply_op s o1) = fds (snd (FileSystem_close s fd))"
    | (same) "fds (apply_op s o1) = fds s"
    | (app) d1 where "fds (apply_op s o1) = fds s @ [Some d1]"
    using apply_op_fds[of o1 s] by blast
  then show ?thesis
  proof cases
    case c
    then show ?thesis using close_fds_cases[of s fd] t by (auto simp: trimmed_pop_nulls)
  next
    case same
    then show ?thesis using t by simp
  next
    case app
    then show ?thesis by (simp add: trimmed_def)
  qed
qed

lemma trimmed_run: "trimmed (fds s) \<Longrightarrow> trimmed (fds (run s ops))"
  unfolding run_def by (induction ops arbitrary: s) (simp_all add: trimmed_apply_op)

lemma trimmed_new: "trimmed (fds (FileSystem_new c))"
  by (simp add: FileSystem_new_def trimmed_def split: prod.splits)

text \<open>
  C9. (1) An id returned by \<open>open\<close> is the table length before the call plus 20, so at
  least 20, and resolves to the descriptor just pushed. (2) An id that resolves to a
  descriptor resolves to the same descriptor after any operation other than its own
  \<open>close\<close>. (3) \<open>close\<close> on a null or out-of-range slot raises \<open>EBADF\<close> and changes
  nothing. (4) \<open>close\<close> on an open id nulls the slot and pops the trailing nulls: the id
  no longer resolves, the table is trimmed, every other id resolves as before. (5) In a
  state reached from a new file system by any operations, closing all open ids, each
  once and in any order, leaves the table empty.
\<close>

theorem C9_fd_table:
  "(FileSystem_open s path flag m = (Inr fd, s') \<longrightarrow>
      fd = length (fds s) + 20 \<and> 20 \<le> fd
      \<and> (\<exists>d. lookupFd s' (int fd) = Inr d \<and> fd_id d = fd))
   \<and> (lookupFd s fd0 = Inr d0 \<and> o1 \<noteq> Close fd0 \<longrightarrow> lookupFd (apply_op s o1) fd0 = Inr d0)
   \<and> (fds_at (fds s) (fd1 - 20) = None \<longrightarrow> FileSystem_close s fd1 = (Inl EBADF, s))
   \<and> (fds_at (fds s) (fd1 - 20) \<noteq> None \<longrightarrow>
        (\<exists>s1. FileSystem_close s fd1 = (Inr (), s1)
           \<and> fds s1 = pop_nulls ((fds s)[nat (fd1 - 20) := None])
           \<and> lookupFd s1 fd1 = Inl EBADF
           \<and> trimmed (fds s1)
           \<and> (\<forall>fd2. fd2 \<noteq> fd1 \<longrightarrow> lookupFd s1 fd2 = lookupFd s fd2)))
   \<and> (distinct ids \<and> set ids = open_fds (run (FileSystem_new c) ops) \<longrightarrow>
        fds (run (run (FileSystem_new c) ops) (map Close ids)) = [])"
proof (intro conjI impI)
  assume a: "FileSystem_open s path flag m = (Inr fd, s')"
  from open_Inr[OF a] obtain d where d: "fd = length (fds s) + 20" "fds s' = fds s @ [Some d]" "fd_id d = fd"
    by blast
  show "fd = length (fds s) + 20" by (rule d(1))
  show "20 \<le> fd" using d(1) by simp
  have "lookupFd s' (int fd) = Inr d" using d(1,2) by (simp add: lookupFd_def fds_at_def)
  then show "\<exists>d. lookupFd s' (int fd) = Inr d \<and> fd_id d = fd" using d(3) by blast
next
  assume "lookupFd s fd0 = Inr d0 \<and> o1 \<noteq> Close fd0"
  then show "lookupFd (apply_op s o1) fd0 = Inr d0" using lookupFd_stable by blast
next
  assume "fds_at (fds s) (fd1 - 20) = None"
  then show "FileSystem_close s fd1 = (Inl EBADF, s)" by (rule close_EBADF)
next
  assume "fds_at (fds s) (fd1 - 20) \<noteq> None"
  then obtain d where "fds_at (fds s) (fd1 - 20) = Some d" by blast
  from close_ok[OF this]
  show "\<exists>s1. FileSystem_close s fd1 = (Inr (), s1)
           \<and> fds s1 = pop_nulls ((fds s)[nat (fd1 - 20) := None])
           \<and> lookupFd s1 fd1 = Inl EBADF
           \<and> trimmed (fds s1)
           \<and> (\<forall>fd2. fd2 \<noteq> fd1 \<longrightarrow> lookupFd s1 fd2 = lookupFd s fd2)" .
next
  assume "distinct ids \<and> set ids = open_fds (run (FileSystem_new c) ops)"
  then show "fds (run (run (FileSystem_new c) ops) (map Close ids)) = []"
    using close_all_empty[OF trimmed_run[OF trimmed_new]] by blast
qed


lemma fds_state_x: "fds state_x = [Some desc_x]"
  by (simp add: state_x_def desc_x_def)

lemma run_state_x: "run (FileSystem_new linux) [Open ''/x'' 66 0] = state_x"
  by (simp add: run_def FileSystem_new_linux open_x)

text \<open>
  In \<open>state_x\<close> the only open id is 20: it survives a \<open>mkdir\<close>, \<open>close(7)\<close> raises
  \<open>EBADF\<close>, and \<open>close(20)\<close> empties the table.
\<close>

theorem C9_fd_table_witness:
  "FileSystem_open state_new ''/x'' 66 0 = (Inr 20, state_x)
   \<and> lookupFd state_x 20 = Inr desc_x \<and> fd_id desc_x = 20
   \<and> lookupFd (apply_op state_x (Mkdir ''/d'' 0)) 20 = Inr desc_x
   \<and> FileSystem_close state_x 7 = (Inl EBADF, state_x)
   \<and> (\<exists>s1. FileSystem_close state_x 20 = (Inr (), s1) \<and> fds s1 = []
          \<and> lookupFd s1 20 = Inl EBADF)
   \<and> open_fds (run (FileSystem_new linux) [Open ''/x'' 66 0]) = {20}
   \<and> fds (run (run (FileSystem_new linux) [Open ''/x'' 66 0]) (map Close [20])) = []"
proof -
  have l: "lookupFd state_x 20 = Inr desc_x"
    by (simp add: lookupFd_def fds_at_def fds_state_x)
  have n7: "fds_at (fds state_x) (7 - 20) = None"
    by (simp add: fds_at_def)
  have n20: "fds_at (fds state_x) (20 - 20) \<noteq> None"
    by (simp add: fds_at_def fds_state_x)
  have o: "open_fds (run (FileSystem_new linux) [Open ''/x'' 66 0]) = {20}"
    unfolding run_state_x by (auto simp: open_fds_def fds_at_def fds_state_x split: if_splits)
  have p: "pop_nulls ((fds state_x)[nat (20 - 20) := None]) = []"
    using pop_nulls_snoc[of "[]" None] by (simp add: fds_state_x)
  note b = C9_fd_table[of state_x "''/x''" 0 0 21 state_x 20 desc_x "Mkdir ''/d'' 0" 20
              "[20]" linux "[Open ''/x'' 66 0]"]
  have 1: "lookupFd (apply_op state_x (Mkdir ''/d'' 0)) 20 = Inr desc_x"
    using b l by blast
  have 2: "FileSystem_close state_x 7 = (Inl EBADF, state_x)"
    using C9_fd_table[of state_x "''/x''" 0 0 21 state_x 20 desc_x "Mkdir ''/d'' 0" 7
              "[20]" linux "[Open ''/x'' 66 0]"] n7 by blast
  have 3: "\<exists>s1. FileSystem_close state_x 20 = (Inr (), s1) \<and> fds s1 = []
          \<and> lookupFd s1 20 = Inl EBADF"
    using b n20 p by auto
  have 4: "fds (run (run (FileSystem_new linux) [Open ''/x'' 66 0]) (map Close [20])) = []"
    using b o by simp
  have 5: "fd_id desc_x = 20" by (simp add: desc_x_def)
  from open_x l 1 2 3 o 4 5 show ?thesis by blast
qed


subsection \<open>Names in a directory\<close>

lemma shrinks_refl [simp]: "shrinks s s"
proof -
  have "\<forall>i. \<exists>P. dir_entries s i = filter P (dir_entries s i)"
    by (intro allI exI[of _ "\<lambda>_. True"]) simp
  then show ?thesis by (simp add: shrinks_def)
qed

lemma shrinks_trans: "shrinks s s1 \<Longrightarrow> shrinks s1 s2 \<Longrightarrow> shrinks s s2"
proof -
  assume a: "shrinks s s1" and b: "shrinks s1 s2"
  have "\<exists>P. dir_entries s2 i = filter P (dir_entries s i)" for i
  proof -
    from a obtain P where "dir_entries s1 i = filter P (dir_entries s i)" unfolding shrinks_def by blast
    moreover from b obtain Q where "dir_entries s2 i = filter Q (dir_entries s1 i)" unfolding shrinks_def by blast
    ultimately have "dir_entries s2 i = filter (\<lambda>x. P x \<and> Q x) (dir_entries s i)" by simp
    then show ?thesis by blast
  qed
  moreover have "entry_name s2 e = entry_name s e \<and> entry_inode s2 e = entry_inode s e" if "e < next_entry s" for e
    using a b that unfolding shrinks_def by (metis less_le_trans)
  ultimately show ?thesis using a b unfolding shrinks_def by auto
qed

lemma shrinks_subset: "shrinks s s' \<Longrightarrow> set (dir_entries s' i) \<subseteq> set (dir_entries s i)"
  unfolding shrinks_def by (metis filter_is_subset)

lemma tree_inv_shrinks:
  assumes "tree_inv s" "shrinks s s'"
  shows "tree_inv s'"
proof -
  have sub: "\<And>i. set (dir_entries s' i) \<subseteq> set (dir_entries s i)"
    using assms(2) by (rule shrinks_subset)
  have lt: "\<And>i e. e \<in> set (dir_entries s i) \<Longrightarrow> e < next_entry s"
    using assms(1) unfolding tree_inv_def by blast
  have 1: "distinct (map (entry_name s') (dir_entries s' i))" for i
  proof -
    from assms(2) obtain P where P: "dir_entries s' i = filter P (dir_entries s i)"
      unfolding shrinks_def by blast
    have e: "map (entry_name s') (dir_entries s' i) = map (entry_name s) (dir_entries s' i)"
      using sub[of i] lt assms(2) unfolding shrinks_def by (intro map_cong) auto
    have d: "distinct (map (entry_name s) (dir_entries s' i))"
      using assms(1) unfolding tree_inv_def by (simp add: P distinct_map_filter)
    show ?thesis unfolding e by (rule d)
  qed
  have 2: "i = j" if "e \<in> set (dir_entries s' i)" "e \<in> set (dir_entries s' j)" for i j e
    using that sub assms(1) unfolding tree_inv_def by blast
  have 3: "e < next_entry s'" if "e \<in> set (dir_entries s' i)" for i e
    using that sub lt assms(2) unfolding shrinks_def by (meson less_le_trans subsetD)
  have 4: "root s' < next_entry s'"
    using assms unfolding shrinks_def tree_inv_def by auto
  from 1 2 3 4 show ?thesis unfolding tree_inv_def by blast
qed


lemma view_upd_inode [simp]:
  "dir_entries (upd_inode s a g) i
     = (if i = a then entries (g (inode_store s a)) else dir_entries s i)"
  "entry_name (upd_inode s a g) = entry_name s"
  "entry_inode (upd_inode s a g) = entry_inode s"
  "next_entry (upd_inode s a g) = next_entry s"
  "root (upd_inode s a g) = root s"
  by (auto simp: upd_inode_def dir_entries_def entry_name_def entry_inode_def)

lemma view_upd_entry [simp]:
  "dir_entries (upd_entry s b h) = dir_entries s"
  "entry_name (upd_entry s b h) e = (if e = b then name (h (entry_store s b)) else entry_name s e)"
  "entry_inode (upd_entry s b h) e = (if e = b then inode (h (entry_store s b)) else entry_inode s e)"
  "next_entry (upd_entry s b h) = next_entry s"
  "root (upd_entry s b h) = root s"
  by (auto simp: upd_entry_def dir_entries_def entry_name_def entry_inode_def)

lemma view_fds [simp]:
  "dir_entries (s\<lparr>fds := x\<rparr>) = dir_entries s"
  "entry_name (s\<lparr>fds := x\<rparr>) = entry_name s"
  "entry_inode (s\<lparr>fds := x\<rparr>) = entry_inode s"
  by (auto simp: dir_entries_def entry_name_def entry_inode_def)

lemma Directory_get_view:
  "Directory_get s d nm
     = find (\<lambda>e. entry_name s e = nm) (dir_entries s (entry_inode s d))"
  by (simp add: Directory_get_def inode_of_def dir_entries_def entry_name_def entry_inode_def)

lemma filter_True_ex: "\<exists>P. xs = filter P xs"
  by (rule exI[of _ "\<lambda>_. True"]) simp

lemma filter_Nil_ex: "\<exists>P. [] = filter P xs"
  by (rule exI[of _ "\<lambda>_. False"]) simp

lemma shrinks_fds [simp]: "shrinks s (s\<lparr>fds := x\<rparr>)"
  by (simp add: shrinks_def filter_True_ex)

lemma shrinks_upd_inode:
  assumes "\<exists>P. entries (g (inode_store s a)) = filter P (entries (inode_store s a))"
  shows "shrinks s (upd_inode s a g)"
proof -
  have "\<exists>P. dir_entries (upd_inode s a g) i = filter P (dir_entries s i)" for i
  proof (cases "i = a")
    case True
    then show ?thesis using assms by (simp add: dir_entries_def upd_inode_def)
  next
    case False
    then show ?thesis by (simp add: filter_True_ex)
  qed
  then show ?thesis by (simp add: shrinks_def)
qed

lemma shrinks_Inode_new:
  "Inode_new s f m = (a, s') \<Longrightarrow> shrinks s s' \<and> next_entry s' = next_entry s"
  by (auto simp: Inode_new_def Let_def shrinks_def dir_entries_def entry_name_def
        entry_inode_def filter_True_ex filter_Nil_ex)

lemma shrinks_Entry_new:
  assumes "Entry_new s k m f n io = (e, s')"
  shows "shrinks s s' \<and> e = next_entry s \<and> next_entry s' = Suc e \<and> entry_name s' e = n
         \<and> (\<forall>i. io = Some i \<longrightarrow> dir_entries s' = dir_entries s)"
proof (cases io)
  case None
  obtain a s1 where i: "Inode_new s f m = (a, s1)" by (cases "Inode_new s f m")
  from shrinks_Inode_new[OF i] have s1: "shrinks s s1" "next_entry s1 = next_entry s" by auto
  from assms None i have s': "s' = s1\<lparr>entry_store := (entry_store s1)(next_entry s1 :=
      \<lparr>cls = k, fs = f, name = n, inode = a, entry_nlink = None\<rparr>), next_entry := next_entry s1 + 1\<rparr>"
    and e: "e = next_entry s1"
    by (auto simp: Entry_new_def Let_def)
  have "shrinks s1 s'" unfolding s'
    by (auto simp: shrinks_def dir_entries_def entry_name_def entry_inode_def filter_True_ex)
  with s1 have "shrinks s s'" using shrinks_trans by blast
  moreover have "entry_name s' e = n" unfolding s' e by (simp add: entry_name_def)
  moreover have "next_entry s' = Suc e" unfolding s' e by simp
  ultimately show ?thesis using e s1 None by simp
next
  case (Some i)
  from assms Some have s': "s' = s\<lparr>entry_store := (entry_store s)(next_entry s :=
      \<lparr>cls = k, fs = f, name = n, inode = i, entry_nlink = None\<rparr>), next_entry := next_entry s + 1\<rparr>"
    and e: "e = next_entry s"
    by (auto simp: Entry_new_def Let_def)
  have "shrinks s s'" unfolding s'
    by (auto simp: shrinks_def dir_entries_def entry_name_def entry_inode_def filter_True_ex)
  moreover have "entry_name s' e = n" unfolding s' e by (simp add: entry_name_def)
  moreover have "next_entry s' = Suc e" unfolding s' e by simp
  moreover have "dir_entries s' = dir_entries s" unfolding s' by (auto simp: dir_entries_def)
  ultimately show ?thesis using e by simp
qed

lemma shrinks_File_new:
  assumes "File_new s f n io = (e, s')"
  shows "shrinks s s' \<and> e = next_entry s \<and> next_entry s' = Suc e \<and> entry_name s' e = n
         \<and> (\<forall>i. io = Some i \<longrightarrow> dir_entries s' = dir_entries s)"
  using assms shrinks_Entry_new unfolding File_new_def by blast

lemma shrinks_Directory_new:
  assumes "Directory_new s f n io = (e, s')"
  shows "shrinks s s' \<and> e = next_entry s \<and> next_entry s' = Suc e \<and> entry_name s' e = n"
proof -
  obtain s1 where n: "Entry_new s Directory (511 OR S_IFDIR (constants s)) f n io = (e, s1)"
    and s': "s' = upd_inode s1 (inode (entry_store s1 e)) (\<lambda>i. i\<lparr>size_bytes := 512\<rparr>)"
    using assms by (auto simp: Directory_new_def split: prod.splits)
  from shrinks_Entry_new[OF n] have a: "shrinks s s1" "e = next_entry s" "next_entry s1 = Suc e"
    "entry_name s1 e = n" by auto
  have "shrinks s1 s'" unfolding s' by (rule shrinks_upd_inode) (simp add: filter_True_ex)
  with a(1) have "shrinks s s'" using shrinks_trans by blast
  then show ?thesis using a s' by simp
qed

lemma shrinks_Entry_reset: "shrinks s (Entry_reset s e)"
  unfolding Entry_reset_def by (rule shrinks_upd_inode) (simp add: filter_Nil_ex)

lemma view_Directory_remove:
  "dir_entries (Directory_remove s d e) i
     = (if i = entry_inode s d then remove1 e (dir_entries s i) else dir_entries s i)"
  "entry_name (Directory_remove s d e) = entry_name s"
  "entry_inode (Directory_remove s d e) = entry_inode s"
  "next_entry (Directory_remove s d e) = next_entry s"
  "root (Directory_remove s d e) = root s"
  by (auto simp: Directory_remove_def Let_def inode_of_def dir_entries_def entry_inode_def
        upd_inode_def entry_name_def remove1_idem)

lemma view_Directory_push:
  "dir_entries (Directory_push s d e) i
     = (if i = entry_inode s d then dir_entries s i @ [e] else dir_entries s i)"
  "entry_name (Directory_push s d e) = entry_name s"
  "entry_inode (Directory_push s d e) = entry_inode s"
  "next_entry (Directory_push s d e) = next_entry s"
  "root (Directory_push s d e) = root s"
  by (auto simp: Directory_push_def dir_entries_def entry_inode_def upd_inode_def entry_name_def)

lemma shrinks_Directory_remove:
  assumes "tree_inv s"
  shows "shrinks s (Directory_remove s d e)"
proof -
  have d: "\<And>i. distinct (dir_entries s i)"
    using assms unfolding tree_inv_def by (meson distinct_map)
  have "\<exists>P. dir_entries (Directory_remove s d e) i = filter P (dir_entries s i)" for i
  proof (cases "i = entry_inode s d")
    case True
    have "remove1 e (dir_entries s i) = filter (\<lambda>x. x \<noteq> e) (dir_entries s i)"
      using d[of i] by (simp add: distinct_remove1_removeAll removeAll_filter_not_eq) metis
    then show ?thesis using True by (auto simp: view_Directory_remove)
  next
    case False
    then show ?thesis by (simp add: view_Directory_remove filter_True_ex)
  qed
  then show ?thesis by (simp add: shrinks_def view_Directory_remove)
qed


lemma tree_invD:
  assumes "tree_inv s"
  shows "distinct (map (entry_name s) (dir_entries s i))"
    and "e \<in> set (dir_entries s i) \<Longrightarrow> e \<in> set (dir_entries s j) \<Longrightarrow> i = j"
    and "e \<in> set (dir_entries s i) \<Longrightarrow> e < next_entry s"
    and "root s < next_entry s"
  using assms unfolding tree_inv_def by blast+

lemma tree_invI:
  assumes "\<And>i. distinct (map (entry_name s) (dir_entries s i))"
    and "\<And>i j e. e \<in> set (dir_entries s i) \<Longrightarrow> e \<in> set (dir_entries s j) \<Longrightarrow> i = j"
    and "\<And>i e. e \<in> set (dir_entries s i) \<Longrightarrow> e < next_entry s"
    and "root s < next_entry s"
  shows "tree_inv s"
  using assms unfolding tree_inv_def by blast

lemma tree_inv_push:
  assumes inv: "tree_inv s"
      and lt: "e < next_entry s"
      and fresh: "\<forall>i. e \<notin> set (dir_entries s i)"
      and nm: "entry_name s e \<notin> entry_name s ` set (dir_entries s (entry_inode s p))"
  shows "tree_inv (Directory_push s p e)"
proof (rule tree_invI)
  let ?s = "Directory_push s p e"
  show "distinct (map (entry_name ?s) (dir_entries ?s i))" for i
    using tree_invD(1)[OF inv, of i] nm by (auto simp: view_Directory_push)
  show "i = j" if "x \<in> set (dir_entries ?s i)" "x \<in> set (dir_entries ?s j)" for i j x
  proof (cases "x = e")
    case True
    then show ?thesis using that fresh by (auto simp: view_Directory_push split: if_splits)
  next
    case False
    then have "x \<in> set (dir_entries s i)" "x \<in> set (dir_entries s j)"
      using that by (auto simp: view_Directory_push split: if_splits)
    then show ?thesis by (rule tree_invD(2)[OF inv])
  qed
  show "x < next_entry ?s" if "x \<in> set (dir_entries ?s i)" for i x
    using that tree_invD(3)[OF inv, of x i] lt
    by (auto simp: view_Directory_push split: if_splits)
  show "root ?s < next_entry ?s"
    using tree_invD(4)[OF inv] by (simp add: view_Directory_push)
qed

lemma tree_inv_set_name:
  assumes inv: "tree_inv s"
      and fresh: "\<forall>i. e \<notin> set (dir_entries s i)"
  shows "tree_inv (upd_entry s e (\<lambda>x. x\<lparr>name := n\<rparr>))"
proof (rule tree_invI)
  let ?s = "upd_entry s e (\<lambda>x. x\<lparr>name := n\<rparr>)"
  have m: "map (entry_name ?s) (dir_entries s i) = map (entry_name s) (dir_entries s i)" for i
    using fresh by (intro map_cong) auto
  show "distinct (map (entry_name ?s) (dir_entries ?s i))" for i
    using tree_invD(1)[OF inv, of i] by (simp add: m)
  show "i = j" if "x \<in> set (dir_entries ?s i)" "x \<in> set (dir_entries ?s j)" for i j x
    using that tree_invD(2)[OF inv, of x i j] by simp
  show "x < next_entry ?s" if "x \<in> set (dir_entries ?s i)" for i x
    using that tree_invD(3)[OF inv, of x i] by simp
  show "root ?s < next_entry ?s"
    using tree_invD(4)[OF inv] by simp
qed

lemma shrinks_entry_nlink:
  "shrinks s (upd_entry s e (\<lambda>x. x\<lparr>entry_nlink := v x\<rparr>))"
  by (simp add: shrinks_def filter_True_ex entry_name_def entry_inode_def upd_entry_def
        dir_entries_def)

lemma get_None:
  "Directory_get s d nm = None
     \<Longrightarrow> nm \<notin> entry_name s ` set (dir_entries s (entry_inode s d))"
  by (auto simp: Directory_get_view find_None_iff)

lemma get_Some:
  "Directory_get s d nm = Some e
     \<Longrightarrow> e \<in> set (dir_entries s (entry_inode s d)) \<and> entry_name s e = nm"
  by (auto simp: Directory_get_view find_Some_iff)

lemma lookup_from_bound:
  "tree_inv s \<Longrightarrow> lookup_from s cur ps = Inr e \<Longrightarrow> cur < next_entry s \<Longrightarrow> e < next_entry s"
proof (induction s cur ps rule: lookup_from.induct)
  case (1 s cur)
  then show ?case by simp
next
  case (2 s cur p ps)
  from "2.prems"(2) obtain x where x: "Directory_get s cur p = Some x" "lookup_from s x ps = Inr e"
    and c: "isDirectory s cur" "cls (entry_store s cur) = Directory"
    by (auto split: if_splits option.splits)
  from get_Some[OF x(1)] "2.prems"(1) have "x < next_entry s" unfolding tree_inv_def by blast
  with "2.IH"[OF _ _ x(1) "2.prems"(1) x(2)] c show ?case by simp
qed

lemma parentDir_bound:
  "tree_inv s \<Longrightarrow> parentDir s path = Inr (p, nm) \<Longrightarrow> p < next_entry s"
proof -
  assume inv: "tree_inv s" and p: "parentDir s path = Inr (p, nm)"
  from p have "lookup_from s (root s) (butlast (split_path path)) = Inr p"
    by (auto simp: parentDir_def lookup_def Let_def split: if_splits sum.splits)
  from lookup_from_bound[OF inv this] inv show ?thesis unfolding tree_inv_def by blast
qed

text \<open>Pushing a newly made entry under a name the directory does not have.\<close>

lemma tree_inv_push_new:
  assumes inv: "tree_inv s"
      and p: "p < next_entry s"
      and g: "Directory_get s p nm = None"
      and sh: "shrinks s s1" and e: "e = next_entry s" "next_entry s1 = Suc e"
        "entry_name s1 e = nm"
  shows "tree_inv (Directory_push s1 p e)"
proof (rule tree_inv_push)
  show inv1: "tree_inv s1" using inv sh by (rule tree_inv_shrinks)
  show "e < next_entry s1" using e by simp
  have old: "\<And>i x. x \<in> set (dir_entries s1 i) \<Longrightarrow> x \<in> set (dir_entries s i) \<and> x < next_entry s"
    using shrinks_subset[OF sh] inv unfolding tree_inv_def by blast
  then show "\<forall>i. e \<notin> set (dir_entries s1 i)" using e(1) by blast
  have pi: "entry_inode s1 p = entry_inode s p" using sh p unfolding shrinks_def by blast
  have "entry_name s1 x \<noteq> nm" if "x \<in> set (dir_entries s1 (entry_inode s p))" for x
  proof -
    from old[OF that] have x: "x \<in> set (dir_entries s (entry_inode s p))" "x < next_entry s" by auto
    then have "entry_name s1 x = entry_name s x" using sh unfolding shrinks_def by blast
    with get_None[OF g] x(1) show ?thesis by auto
  qed
  then show "entry_name s1 e \<notin> entry_name s1 ` set (dir_entries s1 (entry_inode s1 p))"
    unfolding pi e(3) by auto
qed


lemma tree_inv_Directory_mkdir:
  assumes "tree_inv s" "d < next_entry s" "Directory_mkdir s d nm = (r, s')"
  shows "tree_inv s'"
proof (cases "Directory_get s d nm")
  case None
  obtain e s1 where n: "Directory_new s (fs (entry_store s d)) nm None = (e, s1)"
    by (cases "Directory_new s (fs (entry_store s d)) nm None")
  with assms(3) None have s': "s' = Directory_push s1 d e"
    by (simp add: Directory_mkdir_def Directory_exists_def)
  from shrinks_Directory_new[OF n] show ?thesis
    unfolding s' using tree_inv_push_new[OF assms(1,2) None] by blast
next
  case (Some a)
  with assms show ?thesis by (simp add: Directory_mkdir_def Directory_exists_def)
qed

lemma tree_inv_Directory_create:
  assumes "tree_inv s" "d < next_entry s" "Directory_create s d nm m = (f, s')"
  shows "tree_inv s'"
proof (cases "Directory_get s d nm")
  case None
  obtain e s1 where n: "File_new s (fs (entry_store s d)) nm None = (e, s1)"
    by (cases "File_new s (fs (entry_store s d)) nm None")
  with assms(3) None have s': "s' = Directory_push s1 d e"
    by (auto simp: Directory_create_def)
  from shrinks_File_new[OF n] show ?thesis
    unfolding s' using tree_inv_push_new[OF assms(1,2) None] by blast
next
  case (Some a)
  with assms(3) have "s' = Entry_reset s a" by (auto simp: Directory_create_def)
  then show ?thesis using tree_inv_shrinks[OF assms(1) shrinks_Entry_reset] by simp
qed

lemma tree_inv_Directory_remove: "tree_inv s \<Longrightarrow> tree_inv (Directory_remove s d e)"
  using tree_inv_shrinks shrinks_Directory_remove by blast

lemma tree_inv_Directory_rmdir:
  "tree_inv s \<Longrightarrow> Directory_rmdir s d nm = (r, s') \<Longrightarrow> tree_inv s'"
  by (auto simp: Directory_rmdir_def tree_inv_Directory_remove split: option.splits if_splits)

lemma tree_inv_Directory_unlink:
  "tree_inv s \<Longrightarrow> Directory_unlink s d nm = (r, s') \<Longrightarrow> tree_inv s'"
  by (auto simp: Directory_unlink_def tree_inv_Directory_remove split: option.splits if_splits)

lemma tree_inv_FileSystem_mkdir:
  assumes "tree_inv s" shows "tree_inv (snd (FileSystem_mkdir s path m))"
proof (cases "parentDir s path")
  case (Inl e)
  then show ?thesis using assms by (simp add: FileSystem_mkdir_def)
next
  case (Inr pn)
  obtain p nm where pn: "pn = (p, nm)" by (cases pn)
  obtain r s' where d: "Directory_mkdir s p nm = (r, s')" by (cases "Directory_mkdir s p nm")
  have "tree_inv s'"
    using tree_inv_Directory_mkdir[OF assms parentDir_bound[OF assms] d] Inr pn by simp
  then show ?thesis using assms Inr pn d
    by (auto simp: FileSystem_mkdir_def split: sum.splits)
qed

lemma tree_inv_FileSystem_rmdir:
  assumes "tree_inv s" shows "tree_inv (snd (FileSystem_rmdir s path))"
proof (cases "parentDir s path")
  case (Inl e)
  then show ?thesis using assms by (simp add: FileSystem_rmdir_def)
next
  case (Inr pn)
  obtain p nm where pn: "pn = (p, nm)" by (cases pn)
  obtain r s' where d: "Directory_rmdir s p nm = (r, s')" by (cases "Directory_rmdir s p nm")
  have "tree_inv s'" using tree_inv_Directory_rmdir[OF assms d] .
  then show ?thesis using assms Inr pn d by (auto simp: FileSystem_rmdir_def)
qed

lemma tree_inv_FileSystem_unlink:
  assumes "tree_inv s" shows "tree_inv (snd (FileSystem_unlink s path))"
proof (cases "parentDir s path")
  case (Inl e)
  then show ?thesis using assms by (simp add: FileSystem_unlink_def)
next
  case (Inr pn)
  obtain p nm where pn: "pn = (p, nm)" by (cases pn)
  obtain r s' where d: "Directory_unlink s p nm = (r, s')" by (cases "Directory_unlink s p nm")
  have "tree_inv s'" using tree_inv_Directory_unlink[OF assms d] .
  then show ?thesis using assms Inr pn d by (auto simp: FileSystem_unlink_def)
qed

lemma tree_inv_fds: "tree_inv s \<Longrightarrow> tree_inv (s\<lparr>fds := x\<rparr>)"
  using tree_inv_shrinks shrinks_fds by blast

lemma tree_inv_FileSystem_close:
  "tree_inv s \<Longrightarrow> tree_inv (snd (FileSystem_close s fd))"
  by (auto simp: FileSystem_close_def tree_inv_fds split: option.splits)

lemma tree_inv_open_bind:
  "tree_inv s \<Longrightarrow> tree_inv (snd (open_bind s desc f))"
  by (simp add: open_bind_def Let_def tree_inv_fds)

lemma tree_inv_FileSystem_open:
  assumes "tree_inv s" shows "tree_inv (snd (FileSystem_open s path flag m))"
proof (cases "FileSystem_open s path flag m")
  case (Pair r s')
  show ?thesis
  proof (cases r)
    case (Inl e)
    then show ?thesis using Pair assms open_Inl by fastforce
  next
    case (Inr fd)
    let ?desc = "FileDescriptor_new (constants s) flag (length (fds s) + 20)"
    from Pair Inr obtain p nm fo where p: "parentDir s path = Inr (p, nm)"
      and g: "call_get s p nm = Inr fo"
      by (auto simp: FileSystem_open_def Let_def split: sum.splits prod.splits)
    show ?thesis
    proof (cases fo)
      case None
      obtain f s2 where c: "Directory_create s p nm m = (f, s2)"
        by (cases "Directory_create s p nm m")
      have "tree_inv s2"
        using tree_inv_Directory_create[OF assms parentDir_bound[OF assms p] c] .
      then have "tree_inv (snd (open_bind s2 ?desc f))" by (rule tree_inv_open_bind)
      then show ?thesis using Pair Inr p g None c
        by (auto simp: FileSystem_open_def Let_def split: if_splits)
    next
      case (Some f)
      let ?s1 = "if \<not> appending ?desc \<and> writable ?desc then Entry_reset s f else s"
      have "tree_inv ?s1" using assms tree_inv_shrinks[OF assms shrinks_Entry_reset] by simp
      then have "tree_inv (snd (open_bind ?s1 ?desc f))" by (rule tree_inv_open_bind)
      then show ?thesis using Pair Inr p g Some
        by (auto simp: FileSystem_open_def Let_def split: if_splits)
    qed
  qed
qed


lemma call_get_Inr: "call_get s d nm = Inr x \<Longrightarrow> Directory_get s d nm = x"
  by (auto simp: call_get_def split: if_splits)

lemma tree_inv_FileSystem_link:
  assumes inv: "tree_inv s" shows "tree_inv (snd (FileSystem_link s p q))"
proof (cases "FileSystem_link s p q")
  case (Pair r s')
  show ?thesis
  proof (cases "s' = s")
    case True
    then show ?thesis using Pair inv by simp
  next
    case False
    let ?v = "\<lambda>x. x\<lparr>entry_nlink := Some (increment (entry_nlink x))\<rparr>"
    from Pair False obtain fp fn tp tn fe
      where t: "parentDir s q = Inr (tp, tn)"
        and gt: "call_get s tp tn = Inr None"
        and eq: "(let s1 = upd_entry s fe ?v;
                  (ne, s2) = File_new s1 False tn (Some (inode (entry_store s1 fe)))
                in (Inr (), Directory_push s2 tp ne)) = (r, s')"
      by (auto simp: FileSystem_link_def split: sum.splits prod.splits option.splits if_splits)
    let ?s1 = "upd_entry s fe ?v"
    obtain ne s2 where n: "File_new ?s1 False tn (Some (inode (entry_store ?s1 fe))) = (ne, s2)"
      by (cases "File_new ?s1 False tn (Some (inode (entry_store ?s1 fe)))")
    from shrinks_File_new[OF n] have a: "shrinks ?s1 s2" "ne = next_entry s"
      "next_entry s2 = Suc ne" "entry_name s2 ne = tn" by auto
    have sh: "shrinks s s2"
      using shrinks_trans[OF shrinks_entry_nlink a(1)] .
    have "tree_inv (Directory_push s2 tp ne)"
      using tree_inv_push_new[OF inv parentDir_bound[OF inv t] call_get_Inr[OF gt] sh a(2,3,4)] .
    moreover have "s' = Directory_push s2 tp ne" using eq n by (simp add: Let_def)
    ultimately show ?thesis using Pair by simp
  qed
qed

lemma view_set_name [simp]:
  "entry_inode (upd_entry s b (\<lambda>x. x\<lparr>name := n\<rparr>)) = entry_inode s"
  "entry_name (upd_entry s b (\<lambda>x. x\<lparr>name := n\<rparr>)) e = (if e = b then n else entry_name s e)"
  by (auto simp: entry_inode_def entry_name_def upd_entry_def)

lemma remove_name_commute:
  "Directory_remove (upd_entry s b (\<lambda>x. x\<lparr>name := n\<rparr>)) d e
     = upd_entry (Directory_remove s d e) b (\<lambda>x. x\<lparr>name := n\<rparr>)"
  by (simp add: Directory_remove_def upd_entry_def upd_inode_def inode_of_def Let_def)

lemma distinct_map_remove1:
  "distinct (map f xs) \<Longrightarrow> x \<in> set xs \<Longrightarrow> y \<in> set (remove1 x xs) \<Longrightarrow> f y \<noteq> f x"
proof
  assume d: "distinct (map f xs)" and x: "x \<in> set xs" and y: "y \<in> set (remove1 x xs)"
    and e: "f y = f x"
  from d have dx: "distinct xs" and inj: "inj_on f (set xs)" by (simp_all add: distinct_map)
  from y dx have "y \<in> set xs" "y \<noteq> x" by simp_all
  with inj x e show False by (auto dest: inj_onD)
qed

text \<open>The tail of \<open>rename\<close>: rename the entry, take it out of its directory, push it.\<close>

lemma tree_inv_rename_tail:
  assumes inv1: "tree_inv s1"
      and fe: "\<forall>i. fe \<in> set (dir_entries s1 i) \<longrightarrow> i = entry_inode s1 fp"
      and lt: "fe < next_entry s1"
      and tn: "tn \<notin> entry_name s1 ` set (dir_entries s1 (entry_inode s1 tp))"
  shows "tree_inv (Directory_push
           (Directory_remove (upd_entry s1 fe (\<lambda>x. x\<lparr>name := tn\<rparr>)) fp fe) tp fe)"
proof -
  define r where "r = Directory_remove s1 fp fe"
  define s3 where "s3 = upd_entry r fe (\<lambda>x. x\<lparr>name := tn\<rparr>)"
  have invr: "tree_inv r" unfolding r_def using inv1 by (rule tree_inv_Directory_remove)
  have d: "distinct (dir_entries s1 (entry_inode s1 fp))"
    using tree_invD(1)[OF inv1] by (meson distinct_map)
  have fresh: "\<forall>i. fe \<notin> set (dir_entries r i)"
  proof
    fix i show "fe \<notin> set (dir_entries r i)"
    proof (cases "i = entry_inode s1 fp")
      case True
      then show ?thesis unfolding r_def using d by (simp add: view_Directory_remove)
    next
      case False
      then have "fe \<notin> set (dir_entries s1 i)" using fe by blast
      then show ?thesis unfolding r_def using False by (simp add: view_Directory_remove)
    qed
  qed
  have inv3: "tree_inv s3" unfolding s3_def using invr fresh by (rule tree_inv_set_name)
  have sub: "set (dir_entries r i) \<subseteq> set (dir_entries s1 i)" for i
    unfolding r_def using shrinks_subset[OF shrinks_Directory_remove[OF inv1]] .
  have v3: "dir_entries s3 = dir_entries r" "entry_inode s3 = entry_inode s1"
    "next_entry s3 = next_entry s1" "entry_name s3 fe = tn"
    "\<And>x. x \<noteq> fe \<Longrightarrow> entry_name s3 x = entry_name s1 x"
    unfolding s3_def r_def by (simp_all add: view_Directory_remove)
  have "tree_inv (Directory_push s3 tp fe)"
  proof (rule tree_inv_push[OF inv3])
    show "fe < next_entry s3" using lt v3(3) by simp
    show "\<forall>i. fe \<notin> set (dir_entries s3 i)" using fresh v3(1) by simp
    show "entry_name s3 fe \<notin> entry_name s3 ` set (dir_entries s3 (entry_inode s3 tp))"
    proof
      assume "entry_name s3 fe \<in> entry_name s3 ` set (dir_entries s3 (entry_inode s3 tp))"
      then obtain x where x: "x \<in> set (dir_entries r (entry_inode s1 tp))"
        and e: "entry_name s3 x = tn" unfolding v3(1,2,4) by (metis imageE)
      from x fresh have "x \<noteq> fe" by blast
      with e v3(5) have "entry_name s1 x = tn" by simp
      moreover have "x \<in> set (dir_entries s1 (entry_inode s1 tp))" using x sub by blast
      ultimately show False using tn by blast
    qed
  qed
  then show ?thesis unfolding s3_def r_def by (simp only: remove_name_commute)
qed

lemma rename_target_cases:
  "rename_target s tp fe te_opt = Inr s1 \<Longrightarrow>
     (te_opt = None \<and> s1 = s) \<or> (\<exists>te. te_opt = Some te \<and> s1 = Directory_remove s tp te)"
  by (auto simp: rename_target_def split: option.splits if_splits)

lemma tree_inv_rename_move:
  assumes inv: "tree_inv s"
      and gf: "call_get s fp fn = Inr (Some fe)"
      and gt: "call_get s tp tn = Inr te_opt"
      and s1: "rename_target s tp fe te_opt = Inr s1"
  shows "tree_inv (Directory_push
           (Directory_remove (upd_entry s1 fe (\<lambda>x. x\<lparr>name := tn\<rparr>)) fp fe) tp fe)"
proof -
  note c1 = rename_target_cases[OF s1]
  from get_Some[OF call_get_Inr[OF gf]]
  have fe_in: "fe \<in> set (dir_entries s (entry_inode s fp))" by simp
  have v: "entry_inode s1 = entry_inode s" "entry_name s1 = entry_name s"
      "next_entry s1 = next_entry s"
    using c1 by (auto simp: view_Directory_remove)
  have sh: "shrinks s s1" using c1 shrinks_Directory_remove[OF inv] by auto
  have inv1: "tree_inv s1" using inv sh by (rule tree_inv_shrinks)
  have a: "\<forall>i. fe \<in> set (dir_entries s1 i) \<longrightarrow> i = entry_inode s1 fp"
  proof (intro allI impI)
    fix i assume "fe \<in> set (dir_entries s1 i)"
    then have "fe \<in> set (dir_entries s i)" using shrinks_subset[OF sh] by blast
    then show "i = entry_inode s1 fp" unfolding v using tree_invD(2)[OF inv _ fe_in] by blast
  qed
  have b: "fe < next_entry s1" using tree_invD(3)[OF inv fe_in] v(3) by simp
  have c: "tn \<notin> entry_name s1 ` set (dir_entries s1 (entry_inode s1 tp))"
  proof (cases te_opt)
    case None
    then have "s1 = s" using c1 by simp
    then show ?thesis using get_None[OF call_get_Inr[OF gt[unfolded None]]] by simp
  next
    case (Some te)
    then have e: "s1 = Directory_remove s tp te" using c1 by simp
    from get_Some[OF call_get_Inr[OF gt[unfolded Some]]]
    have te: "te \<in> set (dir_entries s (entry_inode s tp))" "entry_name s te = tn" by auto
    have "entry_name s y \<noteq> tn" if "y \<in> set (remove1 te (dir_entries s (entry_inode s tp)))" for y
      using distinct_map_remove1[OF tree_invD(1)[OF inv] te(1) that] te(2) by simp
    moreover have "dir_entries s1 (entry_inode s tp) = remove1 te (dir_entries s (entry_inode s tp))"
      unfolding e by (simp add: view_Directory_remove)
    ultimately show ?thesis unfolding v by (metis imageE)
  qed
  from tree_inv_rename_tail[OF inv1 a b c] show ?thesis .
qed

lemma tree_inv_FileSystem_rename:
  assumes inv: "tree_inv s" shows "tree_inv (snd (FileSystem_rename s p q))"
proof (cases "FileSystem_rename s p q")
  case (Pair r s')
  show ?thesis
  proof (cases "s' = s")
    case True
    then show ?thesis using Pair inv by simp
  next
    case False
    from Pair False obtain fp fn tp tn fe te_opt s1
      where gf: "call_get s fp fn = Inr (Some fe)"
        and gt: "call_get s tp tn = Inr te_opt"
        and s1: "rename_target s tp fe te_opt = Inr s1"
        and s': "s' = Directory_push
           (Directory_remove (upd_entry s1 fe (\<lambda>x. x\<lparr>name := tn\<rparr>)) fp fe) tp fe"
      by (auto simp: FileSystem_rename_def Let_def
            split: sum.splits prod.splits option.splits)
    from tree_inv_rename_move[OF inv gf gt s1] show ?thesis using Pair s' by simp
  qed
qed

lemma tree_inv_new: "tree_inv (FileSystem_new c)"
  by (simp add: FileSystem_new_def Directory_new_def Entry_new_def Inode_new_def Let_def
        upd_inode_def tree_inv_def dir_entries_def blank_inode_def)

lemma tree_inv_apply_op: "tree_inv s \<Longrightarrow> tree_inv (apply_op s o1)"
  by (cases o1)
     (simp_all add: tree_inv_FileSystem_mkdir tree_inv_FileSystem_rmdir
        tree_inv_FileSystem_unlink tree_inv_FileSystem_link tree_inv_FileSystem_rename
        tree_inv_FileSystem_open tree_inv_FileSystem_close)

lemma tree_inv_run: "tree_inv s \<Longrightarrow> tree_inv (run s ops)"
  unfolding run_def by (induction ops arbitrary: s) (simp_all add: tree_inv_apply_op)

lemma Directory_readdir_view:
  "Directory_readdir s d = map (entry_name s) (dir_entries s (entry_inode s d))"
  by (simp add: Directory_readdir_def inode_of_def dir_entries_def entry_name_def
        entry_inode_def)

text \<open>
  C8. In every state reached from a new file system by any sequence of \<open>mkdir\<close>,
  \<open>rmdir\<close>, \<open>unlink\<close>, \<open>link\<close>, \<open>rename\<close>, \<open>open\<close> (which creates files) and
  \<open>close\<close>, whether the operations succeed or raise, the names that \<open>readdir\<close> lists
  for any directory entry are distinct.
\<close>

theorem C8_names_unique:
  "distinct (Directory_readdir (run (FileSystem_new c) ops) d)"
  unfolding Directory_readdir_view
  using tree_invD(1)[OF tree_inv_run[OF tree_inv_new]] .

lemma rename_x_y: "FileSystem_rename state_x_y ''/x'' ''/y'' = (Inr (), state_y)"
  by (simp add: eval_defs FileSystem_rename_def rename_target_def state_new_def state_x_def
        state_x_y_def state_y_def fun_upd_twist)

lemma rename_y_y: "FileSystem_rename state_y ''/y'' ''/y'' = (Inr (), snd (FileSystem_rename state_y ''/y'' ''/y''))"
  by (simp add: eval_defs FileSystem_rename_def rename_target_def state_new_def state_x_def
        state_x_y_def state_y_def)

lemma readdir_y: "Directory_readdir state_y 0 = [''y'']"
  by (simp add: Directory_readdir_def inode_of_def state_new_def state_x_def
        state_x_y_def state_y_def)

text \<open>
  After \<open>open('/x', O_RDWR | O_CREAT)\<close>, \<open>link('/x', '/y')\<close> and
  \<open>rename('/x', '/y')\<close>, a rename onto an existing target, the root lists the single
  name \<open>y\<close>; a further \<open>rename('/y', '/y')\<close> succeeds and the names stay distinct.
\<close>

theorem C8_names_unique_witness:
  "run (FileSystem_new linux) [Open ''/x'' 66 0, Link ''/x'' ''/y'', Rename ''/x'' ''/y'']
     = state_y
   \<and> Directory_readdir state_y 0 = [''y'']
   \<and> fst (FileSystem_rename state_y ''/y'' ''/y'') = Inr ()
   \<and> distinct (Directory_readdir
        (run (FileSystem_new linux)
           [Open ''/x'' 66 0, Link ''/x'' ''/y'', Rename ''/x'' ''/y'', Rename ''/y'' ''/y''])
        0)"
proof -
  have r: "run (FileSystem_new linux)
             [Open ''/x'' 66 0, Link ''/x'' ''/y'', Rename ''/x'' ''/y''] = state_y"
    by (simp add: run_def FileSystem_new_linux open_x link_x_y rename_x_y)
  have f: "fst (FileSystem_rename state_y ''/y'' ''/y'') = Inr ()"
    using rename_y_y by (metis fst_conv)
  from r readdir_y f
    C8_names_unique[of linux
      "[Open ''/x'' 66 0, Link ''/x'' ''/y'', Rename ''/x'' ''/y'', Rename ''/y'' ''/y'']" 0]
  show ?thesis by blast
qed

end
